theory Spec2Isabelle
  imports Main
begin

section \<open>Python values\<close>

text \<open>
  A Python \<open>str\<close> is a sequence of code points, a \<open>bytes\<close> object a sequence of
  numbers below 256. Both are lists of naturals; \<open>ascii\<close> writes a literal.
\<close>

type_synonym pystr = "nat list"
type_synonym pybytes = "nat list"

definition ascii :: "string \<Rightarrow> pystr" where
  "ascii s = map of_char s"

text \<open>
  The values \<open>json.loads\<close> can return, and the ones the handler builds from them.
  A \<open>dict\<close> is an association list in insertion order (its keys are distinct, see
  \<open>wf_pyval\<close>). Which float a \<open>PFloat\<close> is, is not modelled: the handler only ever
  passes a float on to the store client, which refuses it.
\<close>

datatype pyval =
    PNone
  | PBool bool
  | PInt int
  | PFloat
  | PStr pystr
  | PList "pyval list"
  | PDict "(pystr \<times> pyval) list"

type_synonym pydict = "(pystr \<times> pyval) list"

text \<open>The exceptions that can leave the handler or the producer.\<close>

datatype error =
    KeyError pyval
  | IndexError
  | TypeError
  | ValueError
  | BinasciiError
  | UnicodeDecodeError
  | UnicodeEncodeError
  | JSONDecodeError
  | ConditionalCheckFailedException
  | ResourceInUseException
  | ClientError pystr
  | EOFError

text \<open>\<open>d[k] = v\<close>: a key that is present keeps its place, a new one goes last.\<close>

fun dict_set :: "pydict \<Rightarrow> pystr \<Rightarrow> pyval \<Rightarrow> pydict" where
  "dict_set [] k v = [(k, v)]"
| "dict_set ((k', v') # kvs) k v =
     (if k' = k then (k, v) # kvs else (k', v') # dict_set kvs k v)"

text \<open>
  \<open>obj[key]\<close> with a string key. Only a dict has string keys; a list or a str wants an
  integer index, everything else is not subscriptable.
\<close>

definition getitem :: "pyval \<Rightarrow> pystr \<Rightarrow> error + pyval" where
  "getitem obj k =
     (case obj of
        PDict kvs \<Rightarrow> (case map_of kvs k of None \<Rightarrow> Inl (KeyError (PStr k)) | Some v \<Rightarrow> Inr v)
      | _ \<Rightarrow> Inl TypeError)"

text \<open>
  \<open>obj[0]\<close>. A dict that came from JSON has string keys only, so the key 0 is missing.
\<close>

definition getitem0 :: "pyval \<Rightarrow> error + pyval" where
  "getitem0 obj =
     (case obj of
        PList xs \<Rightarrow> (case xs of [] \<Rightarrow> Inl IndexError | x # _ \<Rightarrow> Inr x)
      | PStr s \<Rightarrow> (case s of [] \<Rightarrow> Inl IndexError | c # _ \<Rightarrow> Inr (PStr [c]))
      | PDict kvs \<Rightarrow> Inl (KeyError (PInt 0))
      | _ \<Rightarrow> Inl TypeError)"

text \<open>\<open>x + n\<close> for an int \<open>n\<close>: \<open>bool\<close> is a subclass of \<open>int\<close>.\<close>

definition add_int :: "pyval \<Rightarrow> int \<Rightarrow> error + pyval" where
  "add_int x n =
     (case x of
        PInt m \<Rightarrow> Inr (PInt (m + n))
      | PBool b \<Rightarrow> Inr (PInt ((if b then 1 else 0) + n))
      | PFloat \<Rightarrow> Inr PFloat
      | _ \<Rightarrow> Inl TypeError)"

section \<open>base64\<close>

text \<open>
  \<open>table_b2a_base64\<close> and \<open>table_a2b_base64\<close> of CPython's \<open>binascii\<close>: the alphabet
  \<open>A-Z a-z 0-9 + /\<close>, and its inverse (None where the C table holds an invalid mark).
\<close>

definition table_b2a_base64 :: "nat \<Rightarrow> nat" where
  "table_b2a_base64 n =
     (if n < 26 then of_char CHR ''A'' + n
      else if n < 52 then of_char CHR ''a'' + (n - 26)
      else if n < 62 then of_char CHR ''0'' + (n - 52)
      else if n = 62 then of_char CHR ''+''
      else of_char CHR ''/'')"

definition table_a2b_base64 :: "nat \<Rightarrow> nat option" where
  "table_a2b_base64 c =
     (if of_char CHR ''A'' \<le> c \<and> c \<le> of_char CHR ''Z'' then Some (c - of_char CHR ''A'')
      else if of_char CHR ''a'' \<le> c \<and> c \<le> of_char CHR ''z'' then Some (c - of_char CHR ''a'' + 26)
      else if of_char CHR ''0'' \<le> c \<and> c \<le> of_char CHR ''9'' then Some (c - of_char CHR ''0'' + 52)
      else if c = of_char CHR ''+'' then Some 62
      else if c = of_char CHR ''/'' then Some 63
      else None)"

definition BASE64_PAD :: nat where
  "BASE64_PAD = of_char CHR ''=''"

text \<open>
  \<open>binascii.b2a_base64(data, newline=False)\<close>, three bytes at a time: four 6-bit groups,
  the last group of one or two bytes filled with zero bits and padded with \<open>=\<close>.
\<close>

fun b2a_base64 :: "pybytes \<Rightarrow> pybytes" where
  "b2a_base64 [] = []"
| "b2a_base64 [a] =
     [table_b2a_base64 (a div 4), table_b2a_base64 ((a mod 4) * 16), BASE64_PAD, BASE64_PAD]"
| "b2a_base64 [a, b] =
     [table_b2a_base64 (a div 4), table_b2a_base64 ((a mod 4) * 16 + b div 16),
      table_b2a_base64 ((b mod 16) * 4), BASE64_PAD]"
| "b2a_base64 (a # b # c # rest) =
     [table_b2a_base64 (a div 4), table_b2a_base64 ((a mod 4) * 16 + b div 16),
      table_b2a_base64 ((b mod 16) * 4 + c div 64), table_b2a_base64 (c mod 64)]
     @ b2a_base64 rest"

text \<open>
  \<open>binascii.a2b_base64(data)\<close> (not strict), the loop of the C function with its state
  \<open>quad_pos\<close>, \<open>leftchar\<close>, \<open>pads\<close> and the bytes written so far. A character outside the
  alphabet is skipped; a pad that completes a quad ends the decoding; data that stops
  inside a quad is an error. In \<open>(leftchar << 2) | (this_ch >> 4)\<close> and its two siblings
  the operands have no bit in common and the result fits a byte, so \<open>|\<close> is \<open>+\<close>.
\<close>

fun a2b_loop :: "nat \<Rightarrow> nat \<Rightarrow> nat \<Rightarrow> pybytes \<Rightarrow> pybytes \<Rightarrow> error + pybytes" where
  "a2b_loop quad_pos leftchar pads bin [] =
     (if quad_pos \<noteq> 0 then Inl BinasciiError else Inr bin)"
| "a2b_loop quad_pos leftchar pads bin (this_ch # data) =
     (if this_ch = BASE64_PAD then
        (if quad_pos \<ge> 2 \<and> quad_pos + (pads + 1) \<ge> 4 then Inr bin
         else a2b_loop quad_pos leftchar (if quad_pos \<ge> 2 then pads + 1 else pads) bin data)
      else
        (case table_a2b_base64 this_ch of
           None \<Rightarrow> a2b_loop quad_pos leftchar pads bin data
         | Some v \<Rightarrow>
             (if quad_pos = 0 then a2b_loop 1 v 0 bin data
              else if quad_pos = 1 then
                a2b_loop 2 (v mod 16) 0 (bin @ [(leftchar * 4 + v div 16) mod 256]) data
              else if quad_pos = 2 then
                a2b_loop 3 (v mod 4) 0 (bin @ [(leftchar * 16 + v div 4) mod 256]) data
              else
                a2b_loop 0 0 0 (bin @ [(leftchar * 64 + v) mod 256]) data)))"

definition a2b_base64 :: "pybytes \<Rightarrow> error + pybytes" where
  "a2b_base64 data = a2b_loop 0 0 0 [] data"

text \<open>
  \<open>base64.b64encode(s)\<close> returns the ASCII bytes; \<open>base64.b64decode(s)\<close> takes a str of
  ASCII characters (ValueError otherwise) or bytes; any other object is a TypeError.
\<close>

definition b64encode :: "pybytes \<Rightarrow> pybytes" where
  "b64encode s = b2a_base64 s"

definition b64decode :: "pyval \<Rightarrow> error + pybytes" where
  "b64decode s =
     (case s of
        PStr cs \<Rightarrow> (if list_all (\<lambda>c. c < 128) cs then a2b_base64 cs else Inl ValueError)
      | _ \<Rightarrow> Inl TypeError)"

section \<open>UTF-8\<close>

definition is_cont :: "nat \<Rightarrow> bool" where
  "is_cont b = (128 \<le> b \<and> b \<le> 191)"

text \<open>
  \<open>bytes.decode("utf-8")\<close>, strict: well-formed sequences only (no overlong form, no
  surrogate, nothing above U+10FFFF, no truncated sequence).
\<close>

fun utf8_decode :: "pybytes \<Rightarrow> error + pystr" where
  "utf8_decode [] = Inr []"
| "utf8_decode (b0 # bs) =
     (if b0 < 128 then
        (case utf8_decode bs of Inl e \<Rightarrow> Inl e | Inr cs \<Rightarrow> Inr (b0 # cs))
      else if 194 \<le> b0 \<and> b0 \<le> 223 then
        (case bs of
           b1 # r \<Rightarrow>
             (if is_cont b1 then
                (case utf8_decode r of Inl e \<Rightarrow> Inl e
                 | Inr cs \<Rightarrow> Inr (((b0 - 192) * 64 + (b1 - 128)) # cs))
              else Inl UnicodeDecodeError)
         | _ \<Rightarrow> Inl UnicodeDecodeError)
      else if 224 \<le> b0 \<and> b0 \<le> 239 then
        (case bs of
           b1 # b2 # r \<Rightarrow>
             (if (if b0 = 224 then 160 \<le> b1 \<and> b1 \<le> 191
                  else if b0 = 237 then 128 \<le> b1 \<and> b1 \<le> 159
                  else is_cont b1) \<and> is_cont b2 then
                (case utf8_decode r of Inl e \<Rightarrow> Inl e
                 | Inr cs \<Rightarrow> Inr (((b0 - 224) * 4096 + (b1 - 128) * 64 + (b2 - 128)) # cs))
              else Inl UnicodeDecodeError)
         | _ \<Rightarrow> Inl UnicodeDecodeError)
      else if 240 \<le> b0 \<and> b0 \<le> 244 then
        (case bs of
           b1 # b2 # b3 # r \<Rightarrow>
             (if (if b0 = 240 then 144 \<le> b1 \<and> b1 \<le> 191
                  else if b0 = 244 then 128 \<le> b1 \<and> b1 \<le> 143
                  else is_cont b1) \<and> is_cont b2 \<and> is_cont b3 then
                (case utf8_decode r of Inl e \<Rightarrow> Inl e
                 | Inr cs \<Rightarrow>
                     Inr (((b0 - 240) * 262144 + (b1 - 128) * 4096 + (b2 - 128) * 64
                           + (b3 - 128)) # cs))
              else Inl UnicodeDecodeError)
         | _ \<Rightarrow> Inl UnicodeDecodeError)
      else Inl UnicodeDecodeError)"

text \<open>\<open>str.encode("utf-8")\<close>: a surrogate cannot be encoded.\<close>

fun utf8_encode :: "pystr \<Rightarrow> error + pybytes" where
  "utf8_encode [] = Inr []"
| "utf8_encode (c # cs) =
     (if (55296 \<le> c \<and> c \<le> 57343) \<or> c > 1114111 then Inl UnicodeEncodeError
      else
        (case utf8_encode cs of
           Inl e \<Rightarrow> Inl e
         | Inr bs \<Rightarrow>
             Inr ((if c < 128 then [c]
                   else if c < 2048 then [192 + c div 64, 128 + c mod 64]
                   else if c < 65536 then
                     [224 + c div 4096, 128 + c div 64 mod 64, 128 + c mod 64]
                   else
                     [240 + c div 262144, 128 + c div 4096 mod 64, 128 + c div 64 mod 64,
                      128 + c mod 64]) @ bs)))"

section \<open>JSON\<close>

subsection \<open>\<open>json.dumps\<close>\<close>

text \<open>\<open>repr\<close> of an int: decimal digits, a minus sign for a negative number.\<close>

fun str_nat :: "nat \<Rightarrow> pystr" where
  "str_nat n = (if n < 10 then [48 + n] else str_nat (n div 10) @ [48 + n mod 10])"

declare str_nat.simps [simp del]

definition str_int :: "int \<Rightarrow> pystr" where
  "str_int i = (if i < 0 then of_char CHR ''-'' # str_nat (nat (- i)) else str_nat (nat i))"

definition hex_digit :: "nat \<Rightarrow> nat" where
  "hex_digit n = (if n < 10 then of_char CHR ''0'' + n else of_char CHR ''a'' + (n - 10))"

text \<open>\<open>'{0:04x}'.format(n)\<close> for \<open>n < 0x10000\<close>.\<close>

definition hex4 :: "nat \<Rightarrow> pystr" where
  "hex4 n = [hex_digit (n div 4096 mod 16), hex_digit (n div 256 mod 16),
             hex_digit (n div 16 mod 16), hex_digit (n mod 16)]"

text \<open>
  One character of \<open>py_encode_basestring_ascii\<close> (\<open>ensure_ascii=True\<close>, the default):
  the short escapes, printable ASCII as it is, everything else as \<open>\uXXXX\<close>, a code point
  above U+FFFF as a surrogate pair.
\<close>

definition ascii_escape_unichar :: "nat \<Rightarrow> pystr" where
  "ascii_escape_unichar c =
     (if c = of_char CHR 0x22 then ascii [CHR 0x5C, CHR 0x22]
      else if c = of_char CHR 0x5C then ascii [CHR 0x5C, CHR 0x5C]
      else if c = 10 then ascii [CHR 0x5C, CHR ''n'']
      else if c = 13 then ascii [CHR 0x5C, CHR ''r'']
      else if c = 9 then ascii [CHR 0x5C, CHR ''t'']
      else if c = 8 then ascii [CHR 0x5C, CHR ''b'']
      else if c = 12 then ascii [CHR 0x5C, CHR ''f'']
      else if 32 \<le> c \<and> c \<le> 126 then [c]
      else if c < 65536 then ascii [CHR 0x5C, CHR ''u''] @ hex4 c
      else
        (let v = c - 65536 in
         ascii [CHR 0x5C, CHR ''u''] @ hex4 (55296 + v div 1024 mod 1024)
         @ ascii [CHR 0x5C, CHR ''u''] @ hex4 (56320 + v mod 1024)))"

definition encode_basestring_ascii :: "pystr \<Rightarrow> pystr" where
  "encode_basestring_ascii s =
     of_char CHR 0x22 # concat (map ascii_escape_unichar s) @ [of_char CHR 0x22]"

text \<open>
  \<open>json.dumps(obj)\<close> with the default separators \<open>', '\<close> and \<open>': '\<close>. The text of a
  float is floating point and outside this model: the result is None where the value
  holds one. A key of a dict is always a str here.
\<close>

fun json_dumps :: "pyval \<Rightarrow> pystr option"
  and dumps_items :: "pyval list \<Rightarrow> pystr option"
  and dumps_members :: "pydict \<Rightarrow> pystr option"
where
  "json_dumps PNone = Some (ascii ''null'')"
| "json_dumps (PBool b) = Some (if b then ascii ''true'' else ascii ''false'')"
| "json_dumps (PInt i) = Some (str_int i)"
| "json_dumps PFloat = None"
| "json_dumps (PStr s) = Some (encode_basestring_ascii s)"
| "json_dumps (PList xs) =
     (case dumps_items xs of None \<Rightarrow> None
      | Some t \<Rightarrow> Some (ascii ''['' @ t @ ascii '']''))"
| "json_dumps (PDict kvs) =
     (case dumps_members kvs of None \<Rightarrow> None
      | Some t \<Rightarrow> Some (ascii ''{'' @ t @ ascii ''}''))"
| "dumps_items [] = Some []"
| "dumps_items (x # xs) =
     (case json_dumps x of None \<Rightarrow> None
      | Some t \<Rightarrow>
          (if xs = [] then Some t
           else (case dumps_items xs of None \<Rightarrow> None
                 | Some u \<Rightarrow> Some (t @ ascii '', '' @ u))))"
| "dumps_members [] = Some []"
| "dumps_members ((k, v) # kvs) =
     (case json_dumps v of None \<Rightarrow> None
      | Some t \<Rightarrow>
          (if kvs = [] then Some (encode_basestring_ascii k @ ascii '': '' @ t)
           else (case dumps_members kvs of None \<Rightarrow> None
                 | Some u \<Rightarrow>
                     Some (encode_basestring_ascii k @ ascii '': '' @ t @ ascii '', '' @ u))))"

subsection \<open>\<open>json.loads\<close>\<close>

text \<open>
  The scanner of CPython's \<open>json\<close> module. Each function takes the text that is left
  and returns the value read with the text after it; None is the scanner's failure,
  which \<open>json.loads\<close> raises as JSONDecodeError.
\<close>

definition is_ws :: "nat \<Rightarrow> bool" where
  "is_ws c = (c = 32 \<or> c = 9 \<or> c = 10 \<or> c = 13)"

definition is_digit :: "nat \<Rightarrow> bool" where
  "is_digit c = (48 \<le> c \<and> c \<le> 57)"

definition skip_ws :: "pystr \<Rightarrow> pystr" where
  "skip_ws s = dropWhile is_ws s"

definition hex_val :: "nat \<Rightarrow> nat option" where
  "hex_val c =
     (if 48 \<le> c \<and> c \<le> 57 then Some (c - 48)
      else if 97 \<le> c \<and> c \<le> 102 then Some (c - 87)
      else if 65 \<le> c \<and> c \<le> 70 then Some (c - 55)
      else None)"

text \<open>Four hexadecimal digits.\<close>

definition decode_hex4 :: "pystr \<Rightarrow> (nat \<times> pystr) option" where
  "decode_hex4 s =
     (case s of
        a # b # c # d # rest \<Rightarrow>
          (case (hex_val a, hex_val b, hex_val c, hex_val d) of
             (Some x, Some y, Some z, Some w) \<Rightarrow> Some (x * 4096 + y * 256 + z * 16 + w, rest)
           | _ \<Rightarrow> None)
      | _ \<Rightarrow> None)"

text \<open>
  The character after a backslash. A high surrogate \<open>\uD8xx\<close> directly followed by a
  low surrogate \<open>\uDCxx\<close> is joined with it into one code point.
\<close>

definition scan_escape :: "pystr \<Rightarrow> (nat \<times> pystr) option" where
  "scan_escape s =
     (case s of
        [] \<Rightarrow> None
      | c # cs \<Rightarrow>
          (if c = of_char CHR 0x22 then Some (of_char CHR 0x22, cs)
           else if c = of_char CHR 0x5C then Some (of_char CHR 0x5C, cs)
           else if c = of_char CHR ''/'' then Some (of_char CHR ''/'', cs)
           else if c = of_char CHR ''b'' then Some (8, cs)
           else if c = of_char CHR ''f'' then Some (12, cs)
           else if c = of_char CHR ''n'' then Some (10, cs)
           else if c = of_char CHR ''r'' then Some (13, cs)
           else if c = of_char CHR ''t'' then Some (9, cs)
           else if c = of_char CHR ''u'' then
             (case decode_hex4 cs of
                None \<Rightarrow> None
              | Some (u, rest) \<Rightarrow>
                  (if 55296 \<le> u \<and> u \<le> 56319 then
                     (case rest of
                        bs # uu # rest2 \<Rightarrow>
                          (if bs = of_char CHR 0x5C \<and> uu = of_char CHR ''u'' then
                             (case decode_hex4 rest2 of
                                None \<Rightarrow> None
                              | Some (u2, rest3) \<Rightarrow>
                                  (if 56320 \<le> u2 \<and> u2 \<le> 57343 then
                                     Some (65536 + ((u - 55296) * 1024 + (u2 - 56320)), rest3)
                                   else Some (u, rest)))
                           else Some (u, rest))
                      | _ \<Rightarrow> Some (u, rest))
                   else Some (u, rest)))
           else None))"

text \<open>
  \<open>scanstring\<close> (strict), entered after the opening quote: up to the closing quote,
  with the escapes decoded; a control character inside the string is refused.
\<close>

function scanstring :: "pystr \<Rightarrow> pystr \<Rightarrow> (pystr \<times> pystr) option" where
  "scanstring acc [] = None"
| "scanstring acc (c # cs) =
     (if c = of_char CHR 0x22 then Some (acc, cs)
      else if c = of_char CHR 0x5C then
        (case scan_escape cs of
           None \<Rightarrow> None
         | Some (ch, rest) \<Rightarrow> scanstring (acc @ [ch]) rest)
      else if c < 32 then None
      else scanstring (acc @ [c]) cs)"
  by pat_completeness auto
termination
  by (relation "measure (\<lambda>(acc, s). length s)")
     (auto simp: scan_escape_def decode_hex4_def split: list.splits option.splits if_splits)

text \<open>\<open>int(numstr)\<close> on decimal digits.\<close>

definition int_of_digits :: "pystr \<Rightarrow> int" where
  "int_of_digits ds = foldl (\<lambda>a d. a * 10 + int (d - 48)) 0 ds"

text \<open>
  \<open>_match_number\<close>: an optional minus sign, \<open>0\<close> or a digit string not starting with
  \<open>0\<close>, then a fraction (a dot and a digit at least) and an exponent if they are there.
  With a fraction or an exponent the number is a float.
\<close>

definition match_number :: "pystr \<Rightarrow> (pyval \<times> pystr) option" where
  "match_number s =
     (let neg = (s \<noteq> [] \<and> hd s = of_char CHR ''-'');
          s1 = (if neg then tl s else s)
      in case s1 of
           [] \<Rightarrow> None
         | d # r \<Rightarrow>
             (if is_digit d then
                (let ds = (if d = 48 then [d] else d # takeWhile is_digit r);
                     r1 = (if d = 48 then r else dropWhile is_digit r);
                     frac = (case r1 of
                               p # q # r' \<Rightarrow> p = of_char CHR ''.'' \<and> is_digit q
                             | _ \<Rightarrow> False);
                     r2 = (if frac then dropWhile is_digit (tl r1) else r1);
                     r3 = (case r2 of
                             e # x # r' \<Rightarrow>
                               (if e = of_char CHR ''e'' \<or> e = of_char CHR ''E'' then
                                  (if (x = of_char CHR ''-'' \<or> x = of_char CHR ''+'') \<and> r' \<noteq> []
                                   then r' else x # r')
                                else [])
                           | _ \<Rightarrow> []);
                     expo = (r3 \<noteq> [] \<and> is_digit (hd r3));
                     r4 = (if expo then dropWhile is_digit r3 else r2)
                 in if frac \<or> expo then Some (PFloat, r4)
                    else Some (PInt ((if neg then - 1 else 1) * int_of_digits ds), r4))
              else None))"

definition strip_prefix :: "pystr \<Rightarrow> pystr \<Rightarrow> pystr option" where
  "strip_prefix p s = (if take (length p) s = p then Some (drop (length p) s) else None)"

text \<open>
  What \<open>scan_once\<close> reads without recursion: a string, \<open>null\<close>, \<open>true\<close>, \<open>false\<close>,
  \<open>NaN\<close>, \<open>Infinity\<close>, \<open>-Infinity\<close> (floats), or else a number.
\<close>

definition scan_literal :: "pystr \<Rightarrow> (pyval \<times> pystr) option" where
  "scan_literal s =
     (case s of
        [] \<Rightarrow> None
      | c # cs \<Rightarrow>
          (if c = of_char CHR 0x22 then
             (case scanstring [] cs of None \<Rightarrow> None | Some (str, rest) \<Rightarrow> Some (PStr str, rest))
           else if c = of_char CHR ''n'' \<and> strip_prefix (ascii ''null'') s \<noteq> None then
             Some (PNone, drop 4 s)
           else if c = of_char CHR ''t'' \<and> strip_prefix (ascii ''true'') s \<noteq> None then
             Some (PBool True, drop 4 s)
           else if c = of_char CHR ''f'' \<and> strip_prefix (ascii ''false'') s \<noteq> None then
             Some (PBool False, drop 5 s)
           else if c = of_char CHR ''N'' \<and> strip_prefix (ascii ''NaN'') s \<noteq> None then
             Some (PFloat, drop 3 s)
           else if c = of_char CHR ''I'' \<and> strip_prefix (ascii ''Infinity'') s \<noteq> None then
             Some (PFloat, drop 8 s)
           else if c = of_char CHR ''-'' \<and> strip_prefix (ascii ''-Infinity'') s \<noteq> None then
             Some (PFloat, drop 9 s)
           else match_number s))"

text \<open>
  After a member: white space, then the closing bracket (True, with the text after it)
  or a comma (False, with the text after the comma and its white space).
\<close>

definition next_delim :: "nat \<Rightarrow> pystr \<Rightarrow> (bool \<times> pystr) option" where
  "next_delim closing s =
     (case skip_ws s of
        [] \<Rightarrow> None
      | d # r \<Rightarrow>
          (if d = closing then Some (True, r)
           else if d = of_char CHR '','' then Some (False, skip_ws r)
           else None))"

text \<open>A key of an object: a string, white space, a colon, white space.\<close>

definition object_key :: "pystr \<Rightarrow> (pystr \<times> pystr) option" where
  "object_key s =
     (case s of
        [] \<Rightarrow> None
      | q # s1 \<Rightarrow>
          (if q \<noteq> of_char CHR 0x22 then None
           else
             (case scanstring [] s1 of
                None \<Rightarrow> None
              | Some (key, rest) \<Rightarrow>
                  (case skip_ws rest of
                     [] \<Rightarrow> None
                   | colon # r \<Rightarrow>
                       (if colon \<noteq> of_char CHR '':'' then None else Some (key, skip_ws r))))))"

text \<open>
  \<open>scan_once\<close> with the loops of \<open>_parse_array\<close> and \<open>_parse_object\<close>. The first
  argument bounds the depth of the recursion and the number of members read; \<open>json_loads\<close>
  starts it above the length of the text, and every step it counts consumes a character.
  \<open>parse_array\<close> is entered before a value, \<open>parse_object\<close> before a key. A key read
  twice keeps the later value.
\<close>

fun scan_once :: "nat \<Rightarrow> pystr \<Rightarrow> (pyval \<times> pystr) option"
  and parse_array :: "nat \<Rightarrow> pyval list \<Rightarrow> pystr \<Rightarrow> (pyval \<times> pystr) option"
  and parse_object :: "nat \<Rightarrow> pydict \<Rightarrow> pystr \<Rightarrow> (pyval \<times> pystr) option"
where
  "scan_once 0 s = None"
| "scan_once (Suc n) s =
     (if s \<noteq> [] \<and> hd s = of_char CHR ''{'' then
        (if skip_ws (tl s) \<noteq> [] \<and> hd (skip_ws (tl s)) = of_char CHR ''}''
         then Some (PDict [], tl (skip_ws (tl s)))
         else parse_object n [] (skip_ws (tl s)))
      else if s \<noteq> [] \<and> hd s = of_char CHR ''['' then
        (if skip_ws (tl s) \<noteq> [] \<and> hd (skip_ws (tl s)) = of_char CHR '']''
         then Some (PList [], tl (skip_ws (tl s)))
         else parse_array n [] (skip_ws (tl s)))
      else scan_literal s)"
| "parse_array 0 acc s = None"
| "parse_array (Suc n) acc s =
     (case scan_once n s of
        None \<Rightarrow> None
      | Some (v, rest) \<Rightarrow>
          (case next_delim (of_char CHR '']'') rest of
             None \<Rightarrow> None
           | Some (closed, r) \<Rightarrow>
               (if closed then Some (PList (acc @ [v]), r)
                else parse_array n (acc @ [v]) r)))"
| "parse_object 0 acc s = None"
| "parse_object (Suc n) acc s =
     (case object_key s of
        None \<Rightarrow> None
      | Some (key, r) \<Rightarrow>
          (case scan_once n r of
             None \<Rightarrow> None
           | Some (v, rest) \<Rightarrow>
               (case next_delim (of_char CHR ''}'') rest of
                  None \<Rightarrow> None
                | Some (closed, r2) \<Rightarrow>
                    (if closed then Some (PDict (dict_set acc key v), r2)
                     else parse_object n (dict_set acc key v) r2))))"

text \<open>
  \<open>json.loads(s)\<close> for a str: a leading byte order mark is refused, white space around
  the value is skipped, and anything after it is an error.
\<close>

definition json_loads :: "pystr \<Rightarrow> error + pyval" where
  "json_loads s =
     (if s \<noteq> [] \<and> hd s = 65279 then Inl JSONDecodeError
      else
        (case scan_once (Suc (length s)) (skip_ws s) of
           None \<Rightarrow> Inl JSONDecodeError
         | Some (obj, rest) \<Rightarrow>
             (if skip_ws rest = [] then Inr obj else Inl JSONDecodeError)))"

section \<open>The clock\<close>

text \<open>
  \<open>datetime.now()\<close> is an input of the model. \<open>str\<close> of a naive datetime is
  \<open>YYYY-MM-DD HH:MM:SS\<close>, followed by \<open>.ffffff\<close> when the microseconds are not zero.
\<close>

record datetime =
  year :: nat
  month :: nat
  day :: nat
  hour :: nat
  minute :: nat
  second :: nat
  microsecond :: nat

text \<open>\<open>'%0wd' % n\<close>\<close>

definition zero_pad :: "nat \<Rightarrow> nat \<Rightarrow> pystr" where
  "zero_pad w n = replicate (w - length (str_nat n)) (of_char CHR ''0'') @ str_nat n"

definition str_datetime :: "datetime \<Rightarrow> pystr" where
  "str_datetime t =
     zero_pad 4 (year t) @ ascii ''-'' @ zero_pad 2 (month t) @ ascii ''-'' @ zero_pad 2 (day t)
     @ ascii '' '' @ zero_pad 2 (hour t) @ ascii '':'' @ zero_pad 2 (minute t) @ ascii '':''
     @ zero_pad 2 (second t)
     @ (if microsecond t \<noteq> 0 then ascii ''.'' @ zero_pad 6 (microsecond t) else [])"

section \<open>The store and the topic\<close>

text \<open>
  The world outside the handler: the tables of the store, each a map from the value of
  the key attribute to the row; the messages the topic has accepted; and every request
  sent to either service, in order.
\<close>

type_synonym table = "pyval \<rightharpoonup> pydict"

datatype call = PutItem pystr pydict | Publish pystr pystr

record world =
  tables :: "pystr \<Rightarrow> table"
  published :: "(pystr \<times> pystr) list"
  calls :: "call list"

definition empty_world :: world where
  "empty_world = \<lparr>tables = (\<lambda>_. Map.empty), published = [], calls = []\<rparr>"

text \<open>
  What can go wrong at the two services in one invocation for reasons of their own
  (the service refuses the request, is throttled or cannot be reached): the exception
  the call raises, if any. A call that fails this way changes nothing.
\<close>

record downstream =
  ddb_fault :: "error option"
  sns_fault :: "error option"

definition no_faults :: downstream where
  "no_faults = \<lparr>ddb_fault = None, sns_fault = None\<rparr>"

fun has_float :: "pyval \<Rightarrow> bool" where
  "has_float PFloat = True"
| "has_float (PList xs) = list_ex has_float xs"
| "has_float (PDict kvs) = list_ex (\<lambda>p. has_float (snd p)) kvs"
| "has_float _ = False"

text \<open>
  Modelled from the spec: the key schema of the table, which the deployment stack
  declares and the sources do not hold. Section 6 of the spec: one row per
  transactionId, the primary key.
\<close>

definition table_key :: pystr where
  "table_key = ascii ''transactionId''"

text \<open>
  \<open>table.put_item(Item=item, ConditionExpression="attribute_not_exists(inspectedAt)")\<close>.
  The client turns the item into the store's types first and raises TypeError on a
  float, before any request. The request is then sent. The store evaluates the
  condition on the row that has the item's key: it holds when there is no such row, or
  the row has no attribute \<open>inspectedAt\<close>; then the item replaces the row, otherwise the
  call raises ConditionalCheckFailedException and the row stays.
\<close>

definition put_item :: "error option \<Rightarrow> pystr \<Rightarrow> pydict \<Rightarrow> world \<Rightarrow> (error + unit) \<times> world" where
  "put_item fault table_name item w =
     (if has_float (PDict item) then (Inl TypeError, w)
      else
        (let w1 = w\<lparr>calls := calls w @ [PutItem table_name item]\<rparr> in
         case fault of
           Some e \<Rightarrow> (Inl e, w1)
         | None \<Rightarrow>
             (case map_of item table_key of
                None \<Rightarrow> (Inl (ClientError (ascii ''ValidationException'')), w1)
              | Some k \<Rightarrow>
                  (case tables w table_name k of
                     None \<Rightarrow>
                       (Inr (), w1\<lparr>tables := (tables w)(table_name := (tables w table_name)(k \<mapsto> item))\<rparr>)
                   | Some row \<Rightarrow>
                       (if map_of row (ascii ''inspectedAt'') = None then
                          (Inr (), w1\<lparr>tables := (tables w)(table_name := (tables w table_name)(k \<mapsto> item))\<rparr>)
                        else (Inl ConditionalCheckFailedException, w1))))))"

text \<open>\<open>sns.publish(TopicArn=arn, Message=msg)\<close>\<close>

definition publish :: "error option \<Rightarrow> pystr \<Rightarrow> pystr \<Rightarrow> world \<Rightarrow> (error + unit) \<times> world" where
  "publish fault arn msg w =
     (let w1 = w\<lparr>calls := calls w @ [Publish arn msg]\<rparr> in
      case fault of
        Some e \<Rightarrow> (Inl e, w1)
      | None \<Rightarrow> (Inr (), w1\<lparr>published := published w1 @ [(arn, msg)]\<rparr>))"

section \<open>The fan-out handler (\<open>lib/src/fanout.py\<close>)\<close>

text \<open>\<open>os.environ[name]\<close>\<close>

definition os_environ :: "(pystr \<rightharpoonup> pystr) \<Rightarrow> pystr \<Rightarrow> error + pystr" where
  "os_environ environ name =
     (case environ name of None \<Rightarrow> Inl (KeyError (PStr name)) | Some v \<Rightarrow> Inr v)"

text \<open>
  Lines 17 to 19: the payload of the first record, base64-decoded, UTF-8-decoded and
  parsed.
\<close>

definition decode_event :: "pyval \<Rightarrow> error + pyval" where
  "decode_event event =
     (case getitem event (ascii ''records'') of Inl e \<Rightarrow> Inl e | Inr records \<Rightarrow>
     (case getitem0 records of Inl e \<Rightarrow> Inl e | Inr record \<Rightarrow>
     (case getitem record (ascii ''data'') of Inl e \<Rightarrow> Inl e | Inr payload \<Rightarrow>
     (case b64decode payload of Inl e \<Rightarrow> Inl e | Inr raw \<Rightarrow>
     (case utf8_decode raw of Inl e \<Rightarrow> Inl e | Inr data_dump \<Rightarrow>
      json_loads data_dump)))))"

text \<open>
  The same lines for one record: \<open>record["data"]\<close>, base64-decoded, UTF-8-decoded and
  parsed.
\<close>

definition decode_record :: "pyval \<Rightarrow> error + pyval" where
  "decode_record record =
     (case getitem record (ascii ''data'') of Inl e \<Rightarrow> Inl e | Inr payload \<Rightarrow>
     (case b64decode payload of Inl e \<Rightarrow> Inl e | Inr raw \<Rightarrow>
     (case utf8_decode raw of Inl e \<Rightarrow> Inl e | Inr data_dump \<Rightarrow>
      json_loads data_dump)))"

text \<open>
  Lines 23 to 32: the item, its values evaluated in the order of the dict display.
\<close>

definition build_item :: "pyval \<Rightarrow> datetime \<Rightarrow> error + pydict" where
  "build_item data now =
     (case getitem data (ascii ''transactionId'') of Inl e \<Rightarrow> Inl e | Inr transactionId \<Rightarrow>
     (case getitem data (ascii ''name'') of Inl e \<Rightarrow> Inl e | Inr name \<Rightarrow>
     (case getitem data (ascii ''city'') of Inl e \<Rightarrow> Inl e | Inr city \<Rightarrow>
     (case getitem data (ascii ''transaction'') of Inl e \<Rightarrow> Inl e | Inr transaction \<Rightarrow>
     (case getitem data (ascii ''bankId'') of Inl e \<Rightarrow> Inl e | Inr bankId \<Rightarrow>
     (case getitem data (ascii ''createdAt'') of Inl e \<Rightarrow> Inl e | Inr createdAt \<Rightarrow>
     (case getitem data (ascii ''transaction'') of Inl e \<Rightarrow> Inl e | Inr transaction2 \<Rightarrow>
     (case add_int transaction2 500 of Inl e \<Rightarrow> Inl e | Inr customEnrichment \<Rightarrow>
      Inr [(ascii ''transactionId'', transactionId),
           (ascii ''name'', name),
           (ascii ''city'', city),
           (ascii ''transaction'', transaction),
           (ascii ''bankId'', bankId),
           (ascii ''createdAt'', createdAt),
           (ascii ''customEnrichment'', customEnrichment),
           (ascii ''inspectedAt'', PStr (str_datetime now))]))))))))"

text \<open>
  \<open>handler(event, context)\<close>, with the process environment, the clock and the faults
  of the two services as further inputs; \<open>context\<close> is not used. The result is the
  exception raised or the value returned, with the world after the invocation.
  \<open>json.dumps(item)\<close> is None on a float only, and \<open>put_item\<close> has refused such an item
  before: the handler never takes that branch (\<open>put_item_float_free\<close> below).
\<close>

definition handler ::
  "(pystr \<rightharpoonup> pystr) \<Rightarrow> datetime \<Rightarrow> downstream \<Rightarrow> pyval \<Rightarrow> world \<Rightarrow> (error + pyval) \<times> world" where
  "handler environ now faults event w =
     (case decode_event event of Inl e \<Rightarrow> (Inl e, w) | Inr data \<Rightarrow>
     (case os_environ environ (ascii ''TABLE_NAME'') of Inl e \<Rightarrow> (Inl e, w) | Inr table \<Rightarrow>
     (case build_item data now of Inl e \<Rightarrow> (Inl e, w) | Inr item \<Rightarrow>
     (case put_item (ddb_fault faults) table item w of (Inl e, w1) \<Rightarrow> (Inl e, w1) | (Inr u, w1) \<Rightarrow>
     (case os_environ environ (ascii ''TOPIC_ARN'') of Inl e \<Rightarrow> (Inl e, w1) | Inr topic \<Rightarrow>
     (case json_dumps (PDict item) of None \<Rightarrow> (Inl TypeError, w1) | Some body \<Rightarrow>
     (case publish (sns_fault faults) topic body w1 of (Inl e, w2) \<Rightarrow> (Inl e, w2) | (Inr u, w2) \<Rightarrow>
      (Inr (PDict [(ascii ''statusCode'', PInt 200), (ascii ''body'', PStr body)]), w2))))))))"

section \<open>The generator (\<open>scripts/producer.py\<close>)\<close>

text \<open>
  What the script does to the outside, in order: the request that starts the analytics
  application, what it prints, how long it sleeps, the prompt it reads the stream name
  at, and each record it puts on the stream (stream name, data, partition key).
\<close>

datatype action =
    StartApplication pystr
  | Print pystr
  | Sleep nat
  | Input pystr
  | PutRecord pystr pystr pystr
  | PPrint pyval

text \<open>
  What one turn of the loop draws from outside: the values of \<open>uuid.uuid4()\<close>, of the
  Faker calls and of \<open>datetime.now()\<close>, the number the random generator works from,
  and what \<open>kinesis.put_record\<close> answers (a response, or the exception it raises).
\<close>

record tick =
  t_uuid4 :: pystr
  t_name :: pystr
  t_age :: int
  t_address :: pystr
  t_city :: pystr
  t_state :: pystr
  t_transaction :: int
  t_random :: nat
  t_now :: datetime
  t_put_record :: "error + pyval"

text \<open>
  The inputs of one run: what the try block of the bootstrap ends with (None when
  \<open>start_application\<close> returns), what \<open>input\<close> returns, the value of the i-th call of
  \<open>fake.swift()\<close>, and the turns of the loop that happen before the process is killed.
\<close>

record script_inputs =
  start_application :: "error option"
  stream_name :: "error + pystr"
  swift :: "nat \<Rightarrow> pystr"
  ticks :: "tick list"

text \<open>The state of the script: the list \<open>banks\<close>, and what it has done so far.\<close>

record gen =
  banks :: "pystr list"
  trace :: "action list"
  emitted :: "pydict list"

text \<open>
  \<open>random.randrange(start, stop)\<close>: some number of the range, here picked by the
  number \<open>r\<close>; ValueError on an empty range.
\<close>

definition randrange :: "nat \<Rightarrow> nat \<Rightarrow> nat \<Rightarrow> error + nat" where
  "randrange start stop r =
     (if start < stop then Inr (start + r mod (stop - start)) else Inl ValueError)"

text \<open>Lines 44 to 46: \<open>banks = []\<close>, then ten times \<open>banks.append(fake.swift())\<close>.\<close>

definition fill_banks :: "(nat \<Rightarrow> pystr) \<Rightarrow> pystr list" where
  "fill_banks sw = foldl (\<lambda>bs i. bs @ [sw i]) [] [0..<10]"

text \<open>Lines 49 to 59: the payload of one turn.\<close>

definition make_payload :: "pystr list \<Rightarrow> tick \<Rightarrow> error + pydict" where
  "make_payload bs t =
     (case randrange 0 (length bs) (t_random t) of
        Inl e \<Rightarrow> Inl e
      | Inr i \<Rightarrow>
          (if i < length bs then
             Inr [(ascii ''transactionId'', PStr (t_uuid4 t)),
                  (ascii ''name'', PStr (t_name t)),
                  (ascii ''age'', PInt (t_age t)),
                  (ascii ''address'', PStr (t_address t)),
                  (ascii ''city'', PStr (t_city t)),
                  (ascii ''state'', PStr (t_state t)),
                  (ascii ''transaction'', PInt (t_transaction t)),
                  (ascii ''bankId'', PStr (bs ! i)),
                  (ascii ''createdAt'', PStr (str_datetime (t_now t)))]
           else Inl IndexError))"

text \<open>
  One turn of \<open>while True\<close> (lines 49 to 64). An exception ends the script. The payload
  holds strs and ints only, so \<open>json.dumps\<close> has a result.
\<close>

definition emit_one :: "pystr \<Rightarrow> tick \<Rightarrow> gen \<Rightarrow> error option \<times> gen" where
  "emit_one stream t g =
     (case make_payload (banks g) t of
        Inl e \<Rightarrow> (Some e, g)
      | Inr payload \<Rightarrow>
          (case json_dumps (PDict payload) of
             None \<Rightarrow> (Some TypeError, g)
           | Some data \<Rightarrow>
               (let g1 = g\<lparr>trace := trace g @ [PutRecord stream data (ascii ''abc'')]\<rparr> in
                case t_put_record t of
                  Inl e \<Rightarrow> (Some e, g1)
                | Inr response \<Rightarrow>
                    (None, g1\<lparr>trace := trace g1 @ [PPrint response, Sleep 1],
                              emitted := emitted g1 @ [payload]\<rparr>))))"

text \<open>
  The loop has no exit of its own. A run is observed up to the turns it is given: when
  they are used up the process was stopped from outside, with no error.
\<close>

fun emit_loop :: "pystr \<Rightarrow> tick list \<Rightarrow> gen \<Rightarrow> error option \<times> gen" where
  "emit_loop stream [] g = (None, g)"
| "emit_loop stream (t # ts) g =
     (case emit_one stream t g of
        (Some e, g1) \<Rightarrow> (Some e, g1)
      | (None, g1) \<Rightarrow> emit_loop stream ts g1)"

text \<open>Lines 38 to 64: the prompt for the stream name, the bank pool, the loop.\<close>

definition emit_records :: "script_inputs \<Rightarrow> gen \<Rightarrow> error option \<times> gen" where
  "emit_records inp g =
     (let g1 = g\<lparr>trace := trace g @ [Input (ascii ''Please enter the stream name that was outputted from cdk deploy - (StreamingSolutionWithCdkStack.RootStreamName): '')]\<rparr> in
      case stream_name inp of
        Inl e \<Rightarrow> (Some e, g1)
      | Inr rootSteamName \<Rightarrow>
          emit_loop rootSteamName (ticks inp) (g1\<lparr>banks := fill_banks (swift inp)\<rparr>))"

text \<open>
  The script. Lines 18 to 36: one request to start the application; when it returns,
  a message and thirty seconds of sleep; ResourceInUseException is caught and
  answered with a message; any other exception leaves the script.
\<close>

definition producer :: "script_inputs \<Rightarrow> error option \<times> gen" where
  "producer inp =
     (let g0 = \<lparr>banks = [], trace = [StartApplication (ascii ''abnormality-detector'')],
                emitted = []\<rparr> in
      case start_application inp of
        None \<Rightarrow>
          emit_records inp
            (g0\<lparr>trace := trace g0 @
               [Print (ascii ''Giving 30 seconds for the kinesis analytics application to boot''),
                Sleep 30]\<rparr>)
      | Some e \<Rightarrow>
          (if e = ResourceInUseException then
             emit_records inp
               (g0\<lparr>trace := trace g0 @
                  [Print (ascii ''Application already running, skipping start up step'')]\<rparr>)
           else (Some e, g0)))"

section \<open>Records, scenarios and runs\<close>

text \<open>
  A DomainRecord (section 3 of the spec) and the dict that carries it.
\<close>

record domain_record =
  transactionId :: pystr
  name :: pystr
  city :: pystr
  transaction :: int
  bankId :: pystr
  createdAt :: pystr

definition record_dict :: "domain_record \<Rightarrow> pydict" where
  "record_dict D =
     [(ascii ''transactionId'', PStr (transactionId D)),
      (ascii ''name'', PStr (name D)),
      (ascii ''city'', PStr (city D)),
      (ascii ''transaction'', PInt (transaction D)),
      (ascii ''bankId'', PStr (bankId D)),
      (ascii ''createdAt'', PStr (createdAt D))]"

definition required_fields :: "pystr list" where
  "required_fields =
     [ascii ''transactionId'', ascii ''name'', ascii ''city'', ascii ''transaction'',
      ascii ''bankId'', ascii ''createdAt'']"

text \<open>\<open>del d[k]\<close>\<close>

definition del_key :: "pystr \<Rightarrow> pydict \<Rightarrow> pydict" where
  "del_key k kvs = filter (\<lambda>p. fst p \<noteq> k) kvs"

text \<open>The EnrichedRecord the handler builds for a DomainRecord at a given time.\<close>

definition enriched :: "domain_record \<Rightarrow> datetime \<Rightarrow> pydict" where
  "enriched D now =
     [(ascii ''transactionId'', PStr (transactionId D)),
      (ascii ''name'', PStr (name D)),
      (ascii ''city'', PStr (city D)),
      (ascii ''transaction'', PInt (transaction D)),
      (ascii ''bankId'', PStr (bankId D)),
      (ascii ''createdAt'', PStr (createdAt D)),
      (ascii ''customEnrichment'', PInt (transaction D + 500)),
      (ascii ''inspectedAt'', PStr (str_datetime now))]"

text \<open>The event of an invocation: one list of records, each with its payload.\<close>

definition event_of :: "pyval list \<Rightarrow> pyval" where
  "event_of payloads =
     PDict [(ascii ''records'', PList (map (\<lambda>p. PDict [(ascii ''data'', p)]) payloads))]"

text \<open>The scenario of section 8 of the spec: the JSON text, and its base64 form.\<close>

definition text0 :: pystr where
  "text0 = ascii [CHR ''{'', CHR 0x22, CHR ''t'', CHR ''r'', CHR ''a'', CHR ''n'', CHR ''s'', CHR ''a'', CHR ''c'', CHR ''t'', CHR ''i'', CHR ''o'', CHR ''n'', CHR ''I'', CHR ''d'', CHR 0x22, CHR '':'', CHR 0x22, CHR ''t'', CHR ''1'', CHR 0x22, CHR '','', CHR 0x22, CHR ''n'', CHR ''a'', CHR ''m'', CHR ''e'', CHR 0x22, CHR '':'', CHR 0x22, CHR ''A'', CHR ''l'', CHR ''i'', CHR ''c'', CHR ''e'', CHR 0x22, CHR '','', CHR 0x22, CHR ''c'', CHR ''i'', CHR ''t'', CHR ''y'', CHR 0x22, CHR '':'', CHR 0x22, CHR ''N'', CHR ''Y'', CHR ''C'', CHR 0x22, CHR '','', CHR 0x22, CHR ''t'', CHR ''r'', CHR ''a'', CHR ''n'', CHR ''s'', CHR ''a'', CHR ''c'', CHR ''t'', CHR ''i'', CHR ''o'', CHR ''n'', CHR 0x22, CHR '':'', CHR ''1'', CHR ''0'', CHR ''0'', CHR ''0'', CHR '','', CHR 0x22, CHR ''b'', CHR ''a'', CHR ''n'', CHR ''k'', CHR ''I'', CHR ''d'', CHR 0x22, CHR '':'', CHR 0x22, CHR ''B'', CHR ''A'', CHR ''N'', CHR ''K'', CHR ''A'', CHR ''A'', CHR ''X'', CHR ''X'', CHR 0x22, CHR '','', CHR 0x22, CHR ''c'', CHR ''r'', CHR ''e'', CHR ''a'', CHR ''t'', CHR ''e'', CHR ''d'', CHR ''A'', CHR ''t'', CHR 0x22, CHR '':'', CHR 0x22, CHR ''2'', CHR ''0'', CHR ''2'', CHR ''4'', CHR ''-'', CHR ''0'', CHR ''1'', CHR ''-'', CHR ''0'', CHR ''1'', CHR ''T'', CHR ''0'', CHR ''0'', CHR '':'', CHR ''0'', CHR ''0'', CHR '':'', CHR ''0'', CHR ''0'', CHR 0x22, CHR ''}'']"

definition payload0 :: pystr where
  "payload0 = ascii ''eyJ0cmFuc2FjdGlvbklkIjoidDEiLCJuYW1lIjoiQWxpY2UiLCJjaXR5IjoiTllDIiwidHJhbnNhY3Rpb24iOjEwMDAsImJhbmtJZCI6IkJBTktBQVhYIiwiY3JlYXRlZEF0IjoiMjAyNC0wMS0wMVQwMDowMDowMCJ9''"

text \<open>The same record without its \<open>bankId\<close>.\<close>

definition text_no_bank :: pystr where
  "text_no_bank = ascii [CHR ''{'', CHR 0x22, CHR ''t'', CHR ''r'', CHR ''a'', CHR ''n'', CHR ''s'', CHR ''a'', CHR ''c'', CHR ''t'', CHR ''i'', CHR ''o'', CHR ''n'', CHR ''I'', CHR ''d'', CHR 0x22, CHR '':'', CHR 0x22, CHR ''t'', CHR ''1'', CHR 0x22, CHR '','', CHR 0x22, CHR ''n'', CHR ''a'', CHR ''m'', CHR ''e'', CHR 0x22, CHR '':'', CHR 0x22, CHR ''A'', CHR ''l'', CHR ''i'', CHR ''c'', CHR ''e'', CHR 0x22, CHR '','', CHR 0x22, CHR ''c'', CHR ''i'', CHR ''t'', CHR ''y'', CHR 0x22, CHR '':'', CHR 0x22, CHR ''N'', CHR ''Y'', CHR ''C'', CHR 0x22, CHR '','', CHR 0x22, CHR ''t'', CHR ''r'', CHR ''a'', CHR ''n'', CHR ''s'', CHR ''a'', CHR ''c'', CHR ''t'', CHR ''i'', CHR ''o'', CHR ''n'', CHR 0x22, CHR '':'', CHR ''1'', CHR ''0'', CHR ''0'', CHR ''0'', CHR '','', CHR 0x22, CHR ''c'', CHR ''r'', CHR ''e'', CHR ''a'', CHR ''t'', CHR ''e'', CHR ''d'', CHR ''A'', CHR ''t'', CHR 0x22, CHR '':'', CHR 0x22, CHR ''2'', CHR ''0'', CHR ''2'', CHR ''4'', CHR ''-'', CHR ''0'', CHR ''1'', CHR ''-'', CHR ''0'', CHR ''1'', CHR ''T'', CHR ''0'', CHR ''0'', CHR '':'', CHR ''0'', CHR ''0'', CHR '':'', CHR ''0'', CHR ''0'', CHR 0x22, CHR ''}'']"

definition payload_no_bank :: pystr where
  "payload_no_bank = ascii ''eyJ0cmFuc2FjdGlvbklkIjoidDEiLCJuYW1lIjoiQWxpY2UiLCJjaXR5IjoiTllDIiwidHJhbnNhY3Rpb24iOjEwMDAsImNyZWF0ZWRBdCI6IjIwMjQtMDEtMDFUMDA6MDA6MDAifQ==''"

definition D0 :: domain_record where
  "D0 = \<lparr>transactionId = ascii ''t1'', name = ascii ''Alice'', city = ascii ''NYC'',
          transaction = 1000, bankId = ascii ''BANKAAXX'',
          createdAt = ascii ''2024-01-01T00:00:00''\<rparr>"




definition env0 :: "pystr \<rightharpoonup> pystr" where
  "env0 = [ascii ''TABLE_NAME'' \<mapsto> ascii ''table'', ascii ''TOPIC_ARN'' \<mapsto> ascii ''topic'']"

definition now0 :: datetime where
  "now0 = \<lparr>year = 2024, month = 1, day = 2, hour = 3, minute = 4, second = 5,
            microsecond = 678\<rparr>"

definition now1 :: datetime where
  "now1 = \<lparr>year = 2024, month = 1, day = 2, hour = 3, minute = 4, second = 9,
            microsecond = 0\<rparr>"

text \<open>
  An event as the analytics application sends it, with three records: the scenario
  payload, the payload without \<open>bankId\<close>, and a record that is no dict at all.
\<close>

definition record0 :: pyval where
  "record0 = PDict [(ascii ''recordId'', PStr (ascii ''1'')), (ascii ''data'', PStr payload0)]"

definition later_records :: "pyval list" where
  "later_records =
     [PDict [(ascii ''recordId'', PStr (ascii ''2'')), (ascii ''data'', PStr payload_no_bank)],
      PNone]"

definition batch_event :: pydict where
  "batch_event =
     [(ascii ''invocationId'', PStr (ascii ''i-1'')),
      (ascii ''applicationArn'', PStr (ascii ''arn:app'')),
      (ascii ''records'', PList (record0 # later_records))]"

text \<open>
  One invocation with all its inputs, and a sequence of invocations, one after the
  other on the same world.
\<close>

record invocation =
  inv_environ :: "pystr \<rightharpoonup> pystr"
  inv_now :: datetime
  inv_faults :: downstream
  inv_event :: pyval

fun run :: "invocation list \<Rightarrow> world \<Rightarrow> world" where
  "run [] w = w"
| "run (i # is) w =
     run is (snd (handler (inv_environ i) (inv_now i) (inv_faults i) (inv_event i) w))"

definition is_publish :: "call \<Rightarrow> bool" where
  "is_publish c = (case c of Publish arn msg \<Rightarrow> True | _ \<Rightarrow> False)"

definition is_start :: "action \<Rightarrow> bool" where
  "is_start a = (case a of StartApplication app \<Rightarrow> True | _ \<Rightarrow> False)"

text \<open>A turn whose \<open>put_record\<close> returns.\<close>

definition put_ok :: "tick \<Rightarrow> bool" where
  "put_ok t = (case t_put_record t of Inl e \<Rightarrow> False | Inr response \<Rightarrow> True)"

text \<open>A run of the generator with two turns, the application already running.\<close>

definition tick0 :: tick where
  "tick0 = \<lparr>t_uuid4 = ascii ''u0'', t_name = ascii ''Alice'', t_age = 30,
            t_address = ascii ''1 Main St'', t_city = ascii ''NYC'', t_state = ascii ''NY'',
            t_transaction = 1000, t_random = 13, t_now = now0,
            t_put_record = Inr (PDict [(ascii ''SequenceNumber'', PStr (ascii ''1''))])\<rparr>"

definition inputs0 :: script_inputs where
  "inputs0 = \<lparr>start_application = Some ResourceInUseException,
              stream_name = Inr (ascii ''root-stream''),
              swift = (\<lambda>i. ascii ''BANKAAX'' @ [of_char CHR ''0'' + i]),
              ticks = [tick0, tick0\<lparr>t_uuid4 := ascii ''u1'', t_random := 4\<rparr>]\<rparr>"

definition inputs1 :: script_inputs where
  "inputs1 = inputs0\<lparr>start_application := Some (ClientError (ascii ''AccessDenied''))\<rparr>"

section \<open>Well-formed values\<close>

definition is_high_surrogate :: "nat \<Rightarrow> bool" where
  "is_high_surrogate c = (55296 \<le> c \<and> c \<le> 56319)"

definition is_low_surrogate :: "nat \<Rightarrow> bool" where
  "is_low_surrogate c = (56320 \<le> c \<and> c \<le> 57343)"

fun no_surrogate_pair :: "pystr \<Rightarrow> bool" where
  "no_surrogate_pair (a # b # s) =
     (\<not> (is_high_surrogate a \<and> is_low_surrogate b) \<and> no_surrogate_pair (b # s))"
| "no_surrogate_pair s = True"

text \<open>
  A str as \<open>json.loads\<close> can return it: code points up to U+10FFFF, and no high
  surrogate directly followed by a low one (JSON text writes a character above U+FFFF
  that way, and \<open>json.loads\<close> reads the two as that character).
\<close>

definition wf_str :: "pystr \<Rightarrow> bool" where
  "wf_str s = (list_all (\<lambda>c. c \<le> 1114111) s \<and> no_surrogate_pair s)"




text \<open>
  Text that starts with \<open>\u\<close> and then has the four digits of a low surrogate, or no
  four digits: after the escape of a high surrogate \<open>scan_escape\<close> reads on into it.
\<close>

definition joins_low :: "pystr \<Rightarrow> bool" where
  "joins_low t =
     (case t of
        a # b # r \<Rightarrow>
          a = of_char CHR 0x5C \<and> b = of_char CHR ''u'' \<and>
          (case decode_hex4 r of None \<Rightarrow> True | Some (u2, r') \<Rightarrow> is_low_surrogate u2)
      | _ \<Rightarrow> False)"



section \<open>Lemmas\<close>

lemma json_dumps_None_iff:
  "(json_dumps v = None) = has_float v"
  "(dumps_items xs = None) = list_ex has_float xs"
  "(dumps_members kvs = None) = list_ex (\<lambda>p. has_float (snd p)) kvs"
  by (induction v and xs and kvs rule: json_dumps_dumps_items_dumps_members.induct)
     (auto split: option.splits)

lemma put_item_float_free:
  "put_item fault tn item w = (Inr u, w1) \<Longrightarrow> json_dumps (PDict item) \<noteq> None"
  by (cases "has_float (PDict item)")
     (simp_all add: put_item_def json_dumps_None_iff(1) del: json_dumps.simps has_float.simps)

lemma put_item_keeps:
  assumes "tables w tn k = Some row" "map_of row (ascii ''inspectedAt'') \<noteq> None"
  shows "tables (snd (put_item fault tn' item w)) tn k = Some row"
  using assms by (auto simp: put_item_def Let_def split: option.splits)

lemma publish_tables: "tables (snd (publish fault arn msg w)) = tables w"
  by (auto simp: publish_def Let_def split: option.splits)

lemma handler_world_cases:
  "snd (handler environ now faults event w) = w \<or>
   (\<exists>tn item. snd (handler environ now faults event w) = snd (put_item (ddb_fault faults) tn item w) \<or>
      (\<exists>arn msg. snd (handler environ now faults event w)
          = snd (publish (sns_fault faults) arn msg (snd (put_item (ddb_fault faults) tn item w)))))"
proof (cases "decode_event event")
  case (Inl e) then show ?thesis by (simp add: handler_def)
next
  case d: (Inr data)
  show ?thesis
  proof (cases "os_environ environ (ascii ''TABLE_NAME'')")
    case (Inl e) with d show ?thesis by (simp add: handler_def)
  next
    case t: (Inr tn)
    show ?thesis
    proof (cases "build_item data now")
      case (Inl e) with d t show ?thesis by (simp add: handler_def)
    next
      case b: (Inr item)
      obtain r1 w1 where p: "put_item (ddb_fault faults) tn item w = (r1, w1)"
        by (cases "put_item (ddb_fault faults) tn item w")
      have w1: "w1 = snd (put_item (ddb_fault faults) tn item w)" using p by simp
      show ?thesis
      proof (cases r1)
        case (Inl e)
        with d t b p have "snd (handler environ now faults event w) = w1"
          by (simp add: handler_def)
        then show ?thesis unfolding w1 by blast
      next
        case (Inr u)
        have "snd (handler environ now faults event w) = w1 \<or>
              (\<exists>arn msg. snd (handler environ now faults event w) = snd (publish (sns_fault faults) arn msg w1))"
        proof (cases "os_environ environ (ascii ''TOPIC_ARN'')")
          case (Inl e) with d t b p Inr show ?thesis by (simp add: handler_def)
        next
          case a: (Inr arn)
          show ?thesis
          proof (cases "json_dumps (PDict item)")
            case None with d t b p Inr a show ?thesis by (simp add: handler_def)
          next
            case (Some body)
            obtain r2 w2 where q: "publish (sns_fault faults) arn body w1 = (r2, w2)"
              by (cases "publish (sns_fault faults) arn body w1")
            have "snd (handler environ now faults event w) = w2"
              using d t b p Inr a Some q by (cases r2) (simp_all add: handler_def)
            moreover have "w2 = snd (publish (sns_fault faults) arn body w1)" using q by simp
            ultimately show ?thesis by blast
          qed
        qed
        then show ?thesis unfolding w1 by blast
      qed
    qed
  qed
qed

lemma handler_keeps:
  assumes "tables w tn k = Some row" "map_of row (ascii ''inspectedAt'') \<noteq> None"
  shows "tables (snd (handler environ now faults event w)) tn k = Some row"
  using handler_world_cases[of environ now faults event w] assms
  by (auto simp: publish_tables put_item_keeps)

lemma run_keeps:
  "tables w tn k = Some row \<Longrightarrow> map_of row (ascii ''inspectedAt'') \<noteq> None \<Longrightarrow>
   tables (run invs w) tn k = Some row"
  by (induction invs arbitrary: w) (auto simp: handler_keeps)

lemma handler_result_cases:
  assumes "handler environ now faults event w = (Inr resp, w')"
  obtains data tn item w1 arn body where
    "decode_event event = Inr data"
    "environ (ascii ''TABLE_NAME'') = Some tn"
    "build_item data now = Inr item"
    "put_item (ddb_fault faults) tn item w = (Inr (), w1)"
    "environ (ascii ''TOPIC_ARN'') = Some arn"
    "json_dumps (PDict item) = Some body"
    "publish (sns_fault faults) arn body w1 = (Inr (), w')"
    "resp = PDict [(ascii ''statusCode'', PInt 200), (ascii ''body'', PStr body)]"
  using assms unfolding handler_def os_environ_def
  by (auto split: sum.splits option.splits prod.splits)

lemma put_item_ok:
  assumes "put_item fault tn item w = (Inr (), w1)"
  obtains k where "map_of item table_key = Some k"
    "w1 = w\<lparr>calls := calls w @ [PutItem tn item],
            tables := (tables w)(tn := (tables w tn)(k \<mapsto> item))\<rparr>"
    "fault = None" "\<not> has_float (PDict item)"
    "case tables w tn k of None \<Rightarrow> True | Some row \<Rightarrow> map_of row (ascii ''inspectedAt'') = None"
  using assms unfolding put_item_def Let_def
  by (auto split: if_splits option.splits simp del: has_float.simps)

lemma publish_ok:
  assumes "publish fault arn msg w = (Inr (), w1)"
  shows "fault = None \<and> w1 = w\<lparr>calls := calls w @ [Publish arn msg],
            published := published w @ [(arn, msg)]\<rparr>"
  using assms unfolding publish_def Let_def by (auto split: option.splits)

lemma build_item_fields:
  assumes "build_item data now = Inr item"
  obtains kvs tid nm ct tr bk cr ce where
    "data = PDict kvs" "map_of kvs (ascii ''transactionId'') = Some tid"
    "map_of kvs (ascii ''transaction'') = Some tr" "add_int tr 500 = Inr ce"
    "item = [(ascii ''transactionId'', tid), (ascii ''name'', nm), (ascii ''city'', ct),
       (ascii ''transaction'', tr), (ascii ''bankId'', bk), (ascii ''createdAt'', cr),
       (ascii ''customEnrichment'', ce), (ascii ''inspectedAt'', PStr (str_datetime now))]"
  using assms unfolding build_item_def getitem_def
  by (auto split: sum.splits option.splits pyval.splits)

lemma item_lookups:
  "map_of [(ascii ''transactionId'', tid), (ascii ''name'', nm), (ascii ''city'', ct),
       (ascii ''transaction'', tr), (ascii ''bankId'', bk), (ascii ''createdAt'', cr),
       (ascii ''customEnrichment'', ce), (ascii ''inspectedAt'', ia)] (ascii ''transactionId'') = Some tid"
  "map_of [(ascii ''transactionId'', tid), (ascii ''name'', nm), (ascii ''city'', ct),
       (ascii ''transaction'', tr), (ascii ''bankId'', bk), (ascii ''createdAt'', cr),
       (ascii ''customEnrichment'', ce), (ascii ''inspectedAt'', ia)] (ascii ''customEnrichment'') = Some ce"
  "map_of [(ascii ''transactionId'', tid), (ascii ''name'', nm), (ascii ''city'', ct),
       (ascii ''transaction'', tr), (ascii ''bankId'', bk), (ascii ''createdAt'', cr),
       (ascii ''customEnrichment'', ce), (ascii ''inspectedAt'', ia)] (ascii ''inspectedAt'') = Some ia"
  by (simp_all add: ascii_def)

lemma text0_utf8: "utf8_decode text0 = Inr text0"
  by (simp add: text0_def ascii_def)

lemma payload0_decodes: "b64decode (PStr payload0) = Inr text0"
  by (simp add: payload0_def text0_def b64decode_def a2b_base64_def ascii_def table_a2b_base64_def BASE64_PAD_def)

lemma text0_loads: "json_loads text0 = Inr (PDict (record_dict D0))"
  by (simp add: text0_def D0_def record_dict_def ascii_def json_loads_def skip_ws_def is_ws_def 
       scan_literal_def object_key_def next_delim_def match_number_def is_digit_def int_of_digits_def strip_prefix_def scan_escape_def Let_def)

lemma decode_event0: "decode_event (event_of [PStr payload0]) = Inr (PDict (record_dict D0))"
  by (simp add: decode_event_def event_of_def getitem_def getitem0_def payload0_decodes text0_utf8 text0_loads)

lemma text0_encodes: "utf8_encode text0 = Inr text0"
  by (simp add: text0_def ascii_def)

lemma payload0_encodes: "b64encode text0 = payload0"
  by (simp add: payload0_def text0_def b64encode_def ascii_def table_b2a_base64_def BASE64_PAD_def)

lemma build_item_record: "build_item (PDict (record_dict D)) now = Inr (enriched D now)"
  by (simp add: build_item_def record_dict_def enriched_def getitem_def add_int_def ascii_def)

lemma enriched_dumps: "json_dumps (PDict (enriched D now)) \<noteq> None"
  by (simp add: enriched_def)

lemma enriched_lookups:
  "map_of (enriched D now) table_key = Some (PStr (transactionId D))"
  "map_of (enriched D now) (ascii ''customEnrichment'') = Some (PInt (transaction D + 500))"
  "map_of (enriched D now) (ascii ''inspectedAt'') = Some (PStr (str_datetime now))"
  by (simp_all add: enriched_def ascii_def table_key_def)

lemma enriched_float_free: "\<not> has_float (PDict (enriched D now))"
  by (simp add: enriched_def)

lemma str_datetime_nonempty: "str_datetime now \<noteq> []"
  by (simp add: str_datetime_def ascii_def)

lemma handler_success:
  assumes d: "decode_event event = Inr (PDict (record_dict D))"
    and t: "environ (ascii ''TABLE_NAME'') = Some tn"
    and a: "environ (ascii ''TOPIC_ARN'') = Some arn"
    and f: "ddb_fault faults = None" "sns_fault faults = None"
    and n: "case tables w tn (PStr (transactionId D)) of None \<Rightarrow> True
            | Some row \<Rightarrow> map_of row (ascii ''inspectedAt'') = None"
  shows "\<exists>body. json_dumps (PDict (enriched D now)) = Some body \<and>
           handler environ now faults event w =
             (Inr (PDict [(ascii ''statusCode'', PInt 200), (ascii ''body'', PStr body)]),
              w\<lparr>calls := calls w @ [PutItem tn (enriched D now), Publish arn body],
                tables := (tables w)(tn := (tables w tn)(PStr (transactionId D) \<mapsto> enriched D now)),
                published := published w @ [(arn, body)]\<rparr>)"
proof -
  obtain body where b: "json_dumps (PDict (enriched D now)) = Some body"
    using enriched_dumps[of D now] by blast
  have p: "put_item (ddb_fault faults) tn (enriched D now) w =
      (Inr (), w\<lparr>calls := calls w @ [PutItem tn (enriched D now)],
          tables := (tables w)(tn := (tables w tn)(PStr (transactionId D) \<mapsto> enriched D now))\<rparr>)"
    using n f(1) enriched_float_free[of D now]
    by (auto simp: put_item_def enriched_lookups Let_def split: option.splits simp del: has_float.simps)
  have "handler environ now faults event w =
             (Inr (PDict [(ascii ''statusCode'', PInt 200), (ascii ''body'', PStr body)]),
              w\<lparr>calls := calls w @ [PutItem tn (enriched D now), Publish arn body],
                tables := (tables w)(tn := (tables w tn)(PStr (transactionId D) \<mapsto> enriched D now)),
                published := published w @ [(arn, body)]\<rparr>)"
    unfolding handler_def
    by (simp add: d t a f(2) b p os_environ_def build_item_record publish_def del: json_dumps.simps)
  with b show ?thesis by blast
qed

lemma handler0_first:
  "\<exists>body. json_dumps (PDict (enriched D0 now0)) = Some body \<and>
     handler env0 now0 no_faults (event_of [PStr payload0]) empty_world =
      (Inr (PDict [(ascii ''statusCode'', PInt 200), (ascii ''body'', PStr body)]),
       empty_world\<lparr>calls := [PutItem (ascii ''table'') (enriched D0 now0), Publish (ascii ''topic'') body],
                tables := (\<lambda>_. Map.empty)(ascii ''table'' := [PStr (transactionId D0) \<mapsto> enriched D0 now0]),
                published := [(ascii ''topic'', body)]\<rparr>)"
  using handler_success[OF decode_event0, of env0 "ascii ''table''" "ascii ''topic''" no_faults empty_world now0]
  by (simp add: env0_def no_faults_def empty_world_def ascii_def)

lemma handler_cases:
  obtains
    (early) e where "handler environ now faults event w = (Inl e, w)"
  | (put_failed) data tn item e w1 where
      "decode_event event = Inr data" "environ (ascii ''TABLE_NAME'') = Some tn"
      "build_item data now = Inr item"
      "put_item (ddb_fault faults) tn item w = (Inl e, w1)"
      "handler environ now faults event w = (Inl e, w1)"
  | (no_publish) data tn item e w1 where
      "decode_event event = Inr data" "environ (ascii ''TABLE_NAME'') = Some tn"
      "build_item data now = Inr item"
      "put_item (ddb_fault faults) tn item w = (Inr (), w1)"
      "handler environ now faults event w = (Inl e, w1)"
  | (publish_failed) data tn item w1 arn body e w2 where
      "decode_event event = Inr data" "environ (ascii ''TABLE_NAME'') = Some tn"
      "build_item data now = Inr item"
      "put_item (ddb_fault faults) tn item w = (Inr (), w1)"
      "environ (ascii ''TOPIC_ARN'') = Some arn" "json_dumps (PDict item) = Some body"
      "publish (sns_fault faults) arn body w1 = (Inl e, w2)"
      "handler environ now faults event w = (Inl e, w2)"
  | (completed) data tn item w1 arn body w2 where
      "decode_event event = Inr data" "environ (ascii ''TABLE_NAME'') = Some tn"
      "build_item data now = Inr item"
      "put_item (ddb_fault faults) tn item w = (Inr (), w1)"
      "environ (ascii ''TOPIC_ARN'') = Some arn" "json_dumps (PDict item) = Some body"
      "publish (sns_fault faults) arn body w1 = (Inr (), w2)"
      "handler environ now faults event w =
         (Inr (PDict [(ascii ''statusCode'', PInt 200), (ascii ''body'', PStr body)]), w2)"
proof (cases "decode_event event")
  case (Inl e) then show ?thesis by (intro early[of e]) (simp add: handler_def)
next
  case d: (Inr data)
  show ?thesis
  proof (cases "environ (ascii ''TABLE_NAME'')")
    case None with d show ?thesis
      by (intro early[of "KeyError (PStr (ascii ''TABLE_NAME''))"]) (simp add: handler_def os_environ_def)
  next
    case t: (Some tn)
    show ?thesis
    proof (cases "build_item data now")
      case (Inl e) with d t show ?thesis
        by (intro early[of e]) (simp add: handler_def os_environ_def)
    next
      case b: (Inr item)
      obtain r1 w1 where p: "put_item (ddb_fault faults) tn item w = (r1, w1)"
        by (cases "put_item (ddb_fault faults) tn item w")
      show ?thesis
      proof (cases r1)
        case (Inl e)
        with d t b p show ?thesis
          by (intro put_failed[of data tn item e w1]) (simp_all add: handler_def os_environ_def)
      next
        case (Inr u)
        then have p': "put_item (ddb_fault faults) tn item w = (Inr (), w1)" using p by simp
        show ?thesis
        proof (cases "environ (ascii ''TOPIC_ARN'')")
          case None with d t b p' show ?thesis
            by (intro no_publish[of data tn item w1 "KeyError (PStr (ascii ''TOPIC_ARN''))"])
               (simp_all add: handler_def os_environ_def)
        next
          case a: (Some arn)
          show ?thesis
          proof (cases "json_dumps (PDict item)")
            case None with d t b p' a show ?thesis
              by (intro no_publish[of data tn item w1 TypeError])
                 (simp_all add: handler_def os_environ_def)
          next
            case j: (Some body)
            obtain r2 w2 where q: "publish (sns_fault faults) arn body w1 = (r2, w2)"
              by (cases "publish (sns_fault faults) arn body w1")
            show ?thesis
            proof (cases r2)
              case (Inl e)
              with d t b p' a j q show ?thesis
                by (intro publish_failed[of data tn item w1 arn body e w2])
                   (simp_all add: handler_def os_environ_def)
            next
              case (Inr u2)
              with d t b p' a j q show ?thesis
                by (intro completed[of data tn item w1 arn body w2])
                   (simp_all add: handler_def os_environ_def)
            qed
          qed
        qed
      qed
    qed
  qed
qed

lemma put_item_calls:
  "put_item fault tn item w = (r, w1) \<Longrightarrow>
   published w1 = published w \<and>
   (calls w1 = calls w \<or> calls w1 = calls w @ [PutItem tn item])"
  unfolding put_item_def Let_def
  by (auto split: if_splits option.splits simp del: has_float.simps)

lemma put_item_raises:
  "put_item fault tn item w = (Inl e, w1) \<Longrightarrow> tables w1 = tables w"
  unfolding put_item_def Let_def
  by (auto split: if_splits option.splits simp del: has_float.simps)

lemma publish_calls:
  "publish fault arn msg w = (r, w1) \<Longrightarrow> calls w1 = calls w @ [Publish arn msg]"
  unfolding publish_def Let_def by (auto split: option.splits)

lemma handler_duplicate:
  assumes "decode_event event = Inr data" "environ (ascii ''TABLE_NAME'') = Some tn"
    "build_item data now = Inr item" "map_of item table_key = Some k"
    "\<not> has_float (PDict item)" "tables w tn k = Some row"
    "map_of row (ascii ''inspectedAt'') \<noteq> None" "ddb_fault faults = None"
  shows "handler environ now faults event w =
          (Inl ConditionalCheckFailedException, w\<lparr>calls := calls w @ [PutItem tn item]\<rparr>)"
  using assms unfolding handler_def os_environ_def put_item_def Let_def
  by (auto simp del: has_float.simps)

lemma build_item_again:
  assumes "build_item data now = Inr item"
  shows "\<exists>item'. build_item data now' = Inr item' \<and>
           map_of item' table_key = map_of item table_key \<and>
           has_float (PDict item') = has_float (PDict item)"
  using assms unfolding build_item_def
  by (auto split: sum.splits simp: table_key_def ascii_def)

lemma handler0_first_fst:
  "\<exists>body. handler env0 now0 no_faults (event_of [PStr payload0]) empty_world =
     (Inr (PDict [(ascii ''statusCode'', PInt 200), (ascii ''body'', PStr body)]),
      snd (handler env0 now0 no_faults (event_of [PStr payload0]) empty_world))"
  using handler0_first by auto

lemma decode_event_first:
  "map_of kvs (ascii ''records'') = Some (PList (r # rest)) \<Longrightarrow>
   decode_event (PDict kvs) = decode_record r"
  by (simp add: decode_event_def decode_record_def getitem_def getitem0_def)

lemma decode_record0: "decode_record record0 = Inr (PDict (record_dict D0))"
  by (simp add: decode_record_def record0_def getitem_def ascii_def[of "''data''"]
        ascii_def[of "''recordId''"] payload0_decodes text0_utf8 text0_loads)

lemma build_item_missing:
  "f \<in> set required_fields \<Longrightarrow>
   build_item (PDict (del_key f (record_dict D))) now = Inl (KeyError (PStr f))"
  by (auto simp: required_fields_def del_key_def record_dict_def build_item_def getitem_def
        ascii_def)

lemma decode_event_no_bank:
  "decode_event (event_of [PStr payload_no_bank]) =
     Inr (PDict (del_key (ascii ''bankId'') (record_dict D0)))"
proof -
  have a: "b64decode (PStr payload_no_bank) = Inr text_no_bank"
    by (simp add: payload_no_bank_def text_no_bank_def b64decode_def a2b_base64_def ascii_def
          table_a2b_base64_def BASE64_PAD_def)
  have b: "utf8_decode text_no_bank = Inr text_no_bank"
    by (simp add: text_no_bank_def ascii_def)
  have c: "json_loads text_no_bank = Inr (PDict (del_key (ascii ''bankId'') (record_dict D0)))"
    by (simp add: text_no_bank_def D0_def record_dict_def del_key_def ascii_def json_loads_def
          skip_ws_def is_ws_def scan_literal_def object_key_def next_delim_def match_number_def
          is_digit_def int_of_digits_def strip_prefix_def scan_escape_def Let_def)
  show ?thesis
    by (simp add: decode_event_def event_of_def getitem_def getitem0_def a b c)
qed

lemma upt_10: "[0..<10] = [0, 1, 2, 3, 4, 5, 6, 7, 8, 9]"
  by code_simp

lemma fill_banks_eq:
  "fill_banks sw = [sw 0, sw 1, sw 2, sw 3, sw 4, sw 5, sw 6, sw 7, sw 8, sw 9]"
  by (simp add: fill_banks_def upt_10)

lemma make_payload_bank:
  assumes "make_payload bs t = Inr p"
  shows "\<exists>b \<in> set bs. map_of p (ascii ''bankId'') = Some (PStr b)"
  using assms unfolding make_payload_def randrange_def
  by (auto split: sum.splits if_splits simp: ascii_def)

lemma make_payload_dumps:
  "make_payload bs t = Inr p \<Longrightarrow> json_dumps (PDict p) \<noteq> None"
  unfolding make_payload_def
  by (auto split: sum.splits if_splits)

lemma make_payload_ok:
  "bs \<noteq> [] \<Longrightarrow> \<exists>p. make_payload bs t = Inr p"
  unfolding make_payload_def randrange_def by simp

lemma emit_one_inv:
  assumes "emit_one stream t g = (r, g')"
  shows "banks g' = banks g \<and>
         filter is_start (trace g') = filter is_start (trace g) \<and>
         (emitted g' = emitted g \<or>
          (\<exists>p. emitted g' = emitted g @ [p] \<and>
               (\<exists>b \<in> set (banks g). map_of p (ascii ''bankId'') = Some (PStr b))))"
proof (cases "make_payload (banks g) t")
  case (Inl e) with assms show ?thesis by (auto simp: emit_one_def)
next
  case (Inr p)
  note b = make_payload_bank[OF Inr]
  show ?thesis
  proof (cases "json_dumps (PDict p)")
    case None with Inr assms show ?thesis by (auto simp: emit_one_def)
  next
    case (Some data)
    with Inr assms b show ?thesis
      by (cases "t_put_record t") (auto simp: emit_one_def Let_def is_start_def)
  qed
qed

lemma emit_loop_inv:
  "emit_loop stream ts g = (r, g') \<Longrightarrow>
   \<forall>p \<in> set (emitted g). \<exists>b \<in> set (banks g). map_of p (ascii ''bankId'') = Some (PStr b) \<Longrightarrow>
   banks g' = banks g \<and>
   filter is_start (trace g') = filter is_start (trace g) \<and>
   (\<forall>p \<in> set (emitted g'). \<exists>b \<in> set (banks g). map_of p (ascii ''bankId'') = Some (PStr b))"
proof (induction ts arbitrary: g)
  case Nil then show ?case by simp
next
  case (Cons t ts)
  obtain r1 g1 where e: "emit_one stream t g = (r1, g1)" by (cases "emit_one stream t g")
  note i = emit_one_inv[OF e]
  have inv1: "\<forall>p \<in> set (emitted g1). \<exists>b \<in> set (banks g1). map_of p (ascii ''bankId'') = Some (PStr b)"
    using i Cons.prems(2) by auto
  show ?case
  proof (cases r1)
    case None
    with e Cons.prems(1) have "emit_loop stream ts g1 = (r, g')" by simp
    from Cons.IH[OF this inv1] i show ?thesis by simp
  next
    case (Some err)
    with e Cons.prems(1) have "g' = g1" by simp
    with i inv1 show ?thesis by simp
  qed
qed

lemma emit_loop_all_ok:
  "banks g \<noteq> [] \<Longrightarrow> list_all put_ok ts \<Longrightarrow>
   fst (emit_loop stream ts g) = None \<and>
   length (emitted (snd (emit_loop stream ts g))) = length (emitted g) + length ts"
proof (induction ts arbitrary: g)
  case Nil then show ?case by simp
next
  case (Cons t ts)
  obtain p where p: "make_payload (banks g) t = Inr p"
    using make_payload_ok[OF Cons.prems(1)] by blast
  obtain data where d: "json_dumps (PDict p) = Some data"
    using make_payload_dumps[OF p] by blast
  obtain resp where r: "t_put_record t = Inr resp"
    using Cons.prems(2) by (cases "t_put_record t") (simp_all add: put_ok_def)
  define g1 where "g1 = g\<lparr>trace := trace g @ [PutRecord stream data (ascii ''abc''), PPrint resp, Sleep 1],
                         emitted := emitted g @ [p]\<rparr>"
  have e: "emit_one stream t g = (None, g1)"
    by (simp add: emit_one_def p d r g1_def Let_def del: json_dumps.simps)
  have "banks g1 \<noteq> []" "list_all put_ok ts" using Cons.prems by (simp_all add: g1_def)
  from Cons.IH[OF this, of] e show ?case by (simp add: g1_def)
qed














lemma hex_val_digit: "n < 16 \<Longrightarrow> hex_val (hex_digit n) = Some n"
  by (auto simp: hex_val_def hex_digit_def)


lemma hex_join:
  fixes n :: nat
  assumes "n < 65536"
  shows "n div 4096 mod 16 * 4096 + n div 256 mod 16 * 256 + n div 16 mod 16 * 16 + n mod 16 = n"
proof -
  have a: "n div 4096 mod 16 = n div 4096" using assms by auto
  have e: "n div 4096 = n div 256 div 16" "n div 256 = n div 16 div 16"
    by (simp_all add: div_mult2_eq[symmetric])
  have b: "n div 256 = n div 4096 * 16 + n div 256 mod 16"
    unfolding e(1) by simp
  have c: "n div 16 = n div 256 * 16 + n div 16 mod 16"
    unfolding e(2) by simp
  have d: "n = n div 16 * 16 + n mod 16" by simp
  show ?thesis using a b c d by linarith
qed

lemma decode_hex4_hex4:
  "n < 65536 \<Longrightarrow> decode_hex4 (hex4 n @ r) = Some (n, r)"
  using hex_join[of n] by (simp add: decode_hex4_def hex4_def hex_val_digit)

lemma scan_escape_hex:
  assumes "c < 65536" "\<not> (is_high_surrogate c \<and> joins_low tail)"
  shows "scan_escape (of_char CHR ''u'' # hex4 c @ tail) = Some (c, tail)"
proof (cases "is_high_surrogate c")
  case False
  then show ?thesis
    using assms(1) by (auto simp: scan_escape_def decode_hex4_hex4 is_high_surrogate_def)
next
  case True
  with assms(2) have "\<not> joins_low tail" by simp
  then show ?thesis
    using assms(1) True
    by (auto simp: scan_escape_def decode_hex4_hex4 is_high_surrogate_def joins_low_def
          is_low_surrogate_def split: list.splits option.splits)
qed

lemma pair_bounds:
  fixes c :: nat
  assumes "65536 \<le> c" "c \<le> 1114111"
  shows "(c - 65536) div 1024 mod 1024 = (c - 65536) div 1024"
    "55296 + (c - 65536) div 1024 < 56320"
    "65536 + ((c - 65536) div 1024 * 1024 + (c - 65536) mod 1024) = c"
  using assms by auto

lemma scan_escape_pair:
  assumes "65536 \<le> c" "c \<le> 1114111"
  shows "scan_escape (of_char CHR ''u'' # hex4 (55296 + (c - 65536) div 1024 mod 1024)
            @ of_char CHR 0x5C # of_char CHR ''u'' # hex4 (56320 + (c - 65536) mod 1024) @ tail)
         = Some (c, tail)"
proof -
  let ?hi = "55296 + (c - 65536) div 1024"
  let ?lo = "56320 + (c - 65536) mod 1024"
  note b = pair_bounds[OF assms]
  have hi: "?hi < 65536" "55296 \<le> ?hi" "?hi \<le> 56319" using b(2) by auto
  have lo: "?lo < 65536" "56320 \<le> ?lo" "?lo \<le> 57343" by auto
  have d1: "decode_hex4 (hex4 ?hi @ r) = Some (?hi, r)" for r
    using hi(1) by (rule decode_hex4_hex4)
  have d2: "decode_hex4 (hex4 ?lo @ r) = Some (?lo, r)" for r
    using lo(1) by (rule decode_hex4_hex4)
  show ?thesis
    unfolding b(1) scan_escape_def
    using hi(2,3) lo(2,3) b(3) by (simp add: d1 d2)
qed

lemma scanstring_step:
  assumes "c \<le> 1114111" "\<not> (is_high_surrogate c \<and> joins_low tail)"
  shows "scanstring acc (ascii_escape_unichar c @ tail) = scanstring (acc @ [c]) tail"
proof -
  consider (short) "c = 34 \<or> c = 92 \<or> c = 10 \<or> c = 13 \<or> c = 9 \<or> c = 8 \<or> c = 12"
    | (plain) "32 \<le> c" "c \<le> 126" "c \<noteq> 34" "c \<noteq> 92"
    | (hex) "c < 32 \<or> 126 < c" "c < 65536" "c \<noteq> 10" "c \<noteq> 13" "c \<noteq> 9" "c \<noteq> 8" "c \<noteq> 12"
    | (pair) "65536 \<le> c"
    by linarith
  then show ?thesis
  proof cases
    case short
    then show ?thesis
      by (auto simp: ascii_escape_unichar_def ascii_def scan_escape_def)
  next
    case plain
    then show ?thesis
      by (auto simp: ascii_escape_unichar_def ascii_def)
  next
    case hex
    have "ascii_escape_unichar c = 92 # 117 # hex4 c"
      using hex by (auto simp: ascii_escape_unichar_def ascii_def)
    then show ?thesis
      using scan_escape_hex[OF hex(2) assms(2)] by simp
  next
    case pair
    have "ascii_escape_unichar c =
        92 # 117 # hex4 (55296 + (c - 65536) div 1024 mod 1024)
          @ 92 # 117 # hex4 (56320 + (c - 65536) mod 1024)"
      using pair by (auto simp: ascii_escape_unichar_def ascii_def Let_def)
    then show ?thesis
      using scan_escape_pair[OF pair assms(1), of tail] by simp
  qed
qed

lemma escape_not_joins_low:
  assumes "c \<le> 1114111" "\<not> is_low_surrogate c"
  shows "\<not> joins_low (ascii_escape_unichar c @ tail)"
proof -
  consider (short) "c = 34 \<or> c = 92 \<or> c = 10 \<or> c = 13 \<or> c = 9 \<or> c = 8 \<or> c = 12"
    | (plain) "32 \<le> c" "c \<le> 126" "c \<noteq> 34" "c \<noteq> 92"
    | (hex) "c < 32 \<or> 126 < c" "c < 65536" "c \<noteq> 10" "c \<noteq> 13" "c \<noteq> 9" "c \<noteq> 8" "c \<noteq> 12"
    | (pair) "65536 \<le> c"
    by linarith
  then show ?thesis
  proof cases
    case short
    then show ?thesis
      by (auto simp: ascii_escape_unichar_def ascii_def joins_low_def split: list.splits)
  next
    case plain
    then show ?thesis
      by (auto simp: ascii_escape_unichar_def ascii_def joins_low_def split: list.splits)
  next
    case hex
    have "ascii_escape_unichar c = 92 # 117 # hex4 c"
      using hex by (auto simp: ascii_escape_unichar_def ascii_def)
    then show ?thesis
      using assms(2) by (simp add: joins_low_def decode_hex4_hex4[OF hex(2)])
  next
    case pair
    note b = pair_bounds[OF pair assms(1)]
    have "ascii_escape_unichar c =
        92 # 117 # hex4 (55296 + (c - 65536) div 1024)
          @ 92 # 117 # hex4 (56320 + (c - 65536) mod 1024)"
      using pair b(1) by (auto simp: ascii_escape_unichar_def ascii_def Let_def)
    moreover have "55296 + (c - 65536) div 1024 < 65536" using b(2) by simp
    ultimately show ?thesis
      using b(2) by (simp add: joins_low_def decode_hex4_hex4 is_low_surrogate_def)
  qed
qed

lemma encoded_not_joins_low:
  assumes "list_all (\<lambda>c. c \<le> 1114111) s" "s \<noteq> [] \<longrightarrow> \<not> is_low_surrogate (hd s)"
  shows "\<not> joins_low (concat (map ascii_escape_unichar s) @ 34 # rest)"
proof (cases s)
  case Nil then show ?thesis by (simp add: joins_low_def split: list.splits)
next
  case (Cons c s')
  with assms escape_not_joins_low[of c "concat (map ascii_escape_unichar s') @ 34 # rest"]
  show ?thesis by simp
qed

lemma scanstring_encoded:
  "wf_str s \<Longrightarrow>
   scanstring acc (concat (map ascii_escape_unichar s) @ 34 # rest) = Some (acc @ s, rest)"
proof (induction s arbitrary: acc)
  case Nil then show ?case by simp
next
  case (Cons c s)
  have c: "c \<le> 1114111" and all: "list_all (\<lambda>c. c \<le> 1114111) s"
    and wf: "wf_str s"
    and np: "s \<noteq> [] \<longrightarrow> \<not> (is_high_surrogate c \<and> is_low_surrogate (hd s))"
    using Cons.prems by (cases s; simp add: wf_str_def)+
  have nj: "\<not> (is_high_surrogate c \<and>
              joins_low (concat (map ascii_escape_unichar s) @ 34 # rest))"
  proof (cases "is_high_surrogate c")
    case True
    with np have "s \<noteq> [] \<longrightarrow> \<not> is_low_surrogate (hd s)" by simp
    from encoded_not_joins_low[OF all this] show ?thesis by simp
  qed simp
  show ?case
    using scanstring_step[OF c nj] Cons.IH[OF wf] by simp
qed

lemma scan_string_value:
  "wf_str s \<Longrightarrow> scanstring [] (tl (encode_basestring_ascii s) @ rest) = Some (s, rest)"
  using scanstring_encoded[of s "[]" rest] by (simp add: encode_basestring_ascii_def)








































section \<open>The claims\<close>

text \<open>
  Claim C1, as stated, fails: the scenario payload delivered twice to an empty store,
  with both services working. The second invocation does not return status 200; it
  raises the ConditionalCheckFailedException of \<open>put_item\<close>, which the handler does
  not catch.
\<close>

theorem duplicate_delivery_counterexample:
  "fst (handler env0 now1 no_faults (event_of [PStr payload0])
         (snd (handler env0 now0 no_faults (event_of [PStr payload0]) empty_world)))
   = Inl ConditionalCheckFailedException"
proof -
  obtain body where b: "handler env0 now0 no_faults (event_of [PStr payload0]) empty_world =
      (Inr (PDict [(ascii ''statusCode'', PInt 200), (ascii ''body'', PStr body)]),
       empty_world\<lparr>calls := [PutItem (ascii ''table'') (enriched D0 now0), Publish (ascii ''topic'') body],
                tables := (\<lambda>_. Map.empty)(ascii ''table'' := [PStr (transactionId D0) \<mapsto> enriched D0 now0]),
                published := [(ascii ''topic'', body)]\<rparr>)"
    using handler0_first by blast
  have t: "env0 (ascii ''TABLE_NAME'') = Some (ascii ''table'')"
    by (simp add: env0_def ascii_def)
  have r: "tables (snd (handler env0 now0 no_faults (event_of [PStr payload0]) empty_world))
             (ascii ''table'') (PStr (transactionId D0)) = Some (enriched D0 now0)"
    by (simp add: b)
  have i: "map_of (enriched D0 now0) (ascii ''inspectedAt'') \<noteq> None"
    by (simp add: enriched_lookups)
  have f: "ddb_fault no_faults = None" by (simp add: no_faults_def)
  have "handler env0 now1 no_faults (event_of [PStr payload0])
          (snd (handler env0 now0 no_faults (event_of [PStr payload0]) empty_world)) =
        (Inl ConditionalCheckFailedException,
         (snd (handler env0 now0 no_faults (event_of [PStr payload0]) empty_world))
           \<lparr>calls := calls (snd (handler env0 now0 no_faults (event_of [PStr payload0]) empty_world))
              @ [PutItem (ascii ''table'') (enriched D0 now1)]\<rparr>)"
    using decode_event0 t build_item_record[of D0 now1]
          enriched_lookups(1)[of D0 now1] enriched_float_free[of D0 now1] r i f
    by (rule handler_duplicate)
  then show ?thesis by simp
qed

text \<open>
  Claim C1, amended. When an invocation has succeeded and the same event is delivered
  again, directly or after any other invocations, and the store can be reached, the
  handler raises ConditionalCheckFailedException: the request is sent to the store and
  refused, nothing else changes (no row is written, nothing is published) and no status
  is returned.
\<close>

theorem duplicate_delivery_raises:
  assumes "handler environ now faults event w = (Inr resp, w1)"
    and "ddb_fault faults' = None"
  shows "\<exists>tn item'.
           environ (ascii ''TABLE_NAME'') = Some tn \<and>
           handler environ now' faults' event (run invs w1) =
             (Inl ConditionalCheckFailedException,
              (run invs w1)\<lparr>calls := calls (run invs w1) @ [PutItem tn item']\<rparr>)"
proof -
  from assms(1) obtain data tn item w0 arn body where
    h: "decode_event event = Inr data" "environ (ascii ''TABLE_NAME'') = Some tn"
       "build_item data now = Inr item" "put_item (ddb_fault faults) tn item w = (Inr (), w0)"
       "publish (sns_fault faults) arn body w0 = (Inr (), w1)"
    by (rule handler_result_cases)
  from h(4) obtain k where k: "map_of item table_key = Some k"
    "w0 = w\<lparr>calls := calls w @ [PutItem tn item],
            tables := (tables w)(tn := (tables w tn)(k \<mapsto> item))\<rparr>"
    "\<not> has_float (PDict item)"
    by (rule put_item_ok)
  from h(3) obtain tid nm ct tr bk cr ce where
    item: "item = [(ascii ''transactionId'', tid), (ascii ''name'', nm), (ascii ''city'', ct),
       (ascii ''transaction'', tr), (ascii ''bankId'', bk), (ascii ''createdAt'', cr),
       (ascii ''customEnrichment'', ce), (ascii ''inspectedAt'', PStr (str_datetime now))]"
    by (rule build_item_fields)
  have ia: "map_of item (ascii ''inspectedAt'') \<noteq> None"
    unfolding item by (simp add: item_lookups)
  have "tables w1 = tables w0" using publish_ok[OF h(5)] by simp
  then have "tables w1 tn k = Some item" using k(2) by simp
  then have row: "tables (run invs w1) tn k = Some item"
    using ia by (rule run_keeps)
  obtain item' where i': "build_item data now' = Inr item'"
    "map_of item' table_key = Some k" "\<not> has_float (PDict item')"
    using build_item_again[OF h(3), of now'] k(1,3) by auto
  have "handler environ now' faults' event (run invs w1) =
             (Inl ConditionalCheckFailedException,
              (run invs w1)\<lparr>calls := calls (run invs w1) @ [PutItem tn item']\<rparr>)"
    using h(1,2) i' row ia assms(2) by (rule handler_duplicate)
  with h(2) show ?thesis by blast
qed

text \<open>
  Claim C1, witness of the amended claim: the scenario payload, delivered twice.
\<close>

theorem duplicate_delivery_raises_witness:
  "ddb_fault no_faults = None \<and>
   (\<exists>body. handler env0 now0 no_faults (event_of [PStr payload0]) empty_world =
     (Inr (PDict [(ascii ''statusCode'', PInt 200), (ascii ''body'', PStr body)]),
      snd (handler env0 now0 no_faults (event_of [PStr payload0]) empty_world))) \<and>
   (\<exists>tn item'. env0 (ascii ''TABLE_NAME'') = Some tn \<and>
      handler env0 now1 no_faults (event_of [PStr payload0])
        (run [] (snd (handler env0 now0 no_faults (event_of [PStr payload0]) empty_world))) =
       (Inl ConditionalCheckFailedException,
        (run [] (snd (handler env0 now0 no_faults (event_of [PStr payload0]) empty_world)))
          \<lparr>calls := calls (run [] (snd (handler env0 now0 no_faults (event_of [PStr payload0]) empty_world)))
              @ [PutItem tn item']\<rparr>))"
proof -
  have f: "ddb_fault no_faults = None" by (simp add: no_faults_def)
  obtain body where b: "handler env0 now0 no_faults (event_of [PStr payload0]) empty_world =
     (Inr (PDict [(ascii ''statusCode'', PInt 200), (ascii ''body'', PStr body)]),
      snd (handler env0 now0 no_faults (event_of [PStr payload0]) empty_world))"
    using handler0_first_fst by blast
  show ?thesis
    using f b duplicate_delivery_raises[OF b f, of now1 "[]"] by blast
qed

text \<open>
  Claim C2. Once an invocation has succeeded, the table holds the item it wrote under
  the item's transactionId, with the \<open>inspectedAt\<close> of that invocation, and whatever
  invocations follow (any events, clocks, environments and faults, any number of them),
  the table holds that same item under that key: it is neither overwritten nor joined
  by a second row, a table being a map from keys to rows.
\<close>

theorem stored_once:
  assumes "handler environ now faults event w = (Inr resp, w1)"
  shows "\<exists>tn k item.
           environ (ascii ''TABLE_NAME'') = Some tn \<and>
           tables w1 tn k = Some item \<and>
           map_of item (ascii ''transactionId'') = Some k \<and>
           map_of item (ascii ''inspectedAt'') = Some (PStr (str_datetime now)) \<and>
           (\<forall>invs. tables (run invs w1) tn k = Some item)"
proof -
  from assms obtain data tn item w0 arn body where
    h: "decode_event event = Inr data" "environ (ascii ''TABLE_NAME'') = Some tn"
       "build_item data now = Inr item" "put_item (ddb_fault faults) tn item w = (Inr (), w0)"
       "publish (sns_fault faults) arn body w0 = (Inr (), w1)"
    by (rule handler_result_cases)
  from h(4) obtain k where k: "map_of item table_key = Some k"
    "w0 = w\<lparr>calls := calls w @ [PutItem tn item],
            tables := (tables w)(tn := (tables w tn)(k \<mapsto> item))\<rparr>"
    by (rule put_item_ok)
  from h(3) obtain tid nm ct tr bk cr ce where
    item: "item = [(ascii ''transactionId'', tid), (ascii ''name'', nm), (ascii ''city'', ct),
       (ascii ''transaction'', tr), (ascii ''bankId'', bk), (ascii ''createdAt'', cr),
       (ascii ''customEnrichment'', ce), (ascii ''inspectedAt'', PStr (str_datetime now))]"
    by (rule build_item_fields)
  have tid: "map_of item (ascii ''transactionId'') = Some k"
    using k(1) by (simp add: table_key_def)
  have ia: "map_of item (ascii ''inspectedAt'') = Some (PStr (str_datetime now))"
    unfolding item by (rule item_lookups)
  have "tables w1 = tables w0" using publish_ok[OF h(5)] by simp
  then have row: "tables w1 tn k = Some item" using k(2) by simp
  have "tables (run invs w1) tn k = Some item" for invs
    using row ia by (intro run_keeps) simp_all
  with h(2) row tid ia show ?thesis by blast
qed

text \<open>
  Claim C2, witness: the scenario payload, first on an empty store.
\<close>

theorem stored_once_witness:
  "(\<exists>body. handler env0 now0 no_faults (event_of [PStr payload0]) empty_world =
     (Inr (PDict [(ascii ''statusCode'', PInt 200), (ascii ''body'', PStr body)]),
      snd (handler env0 now0 no_faults (event_of [PStr payload0]) empty_world))) \<and>
   (\<exists>tn k item.
      env0 (ascii ''TABLE_NAME'') = Some tn \<and>
      tables (snd (handler env0 now0 no_faults (event_of [PStr payload0]) empty_world)) tn k = Some item \<and>
      map_of item (ascii ''transactionId'') = Some k \<and>
      map_of item (ascii ''inspectedAt'') = Some (PStr (str_datetime now0)) \<and>
      (\<forall>invs. tables (run invs (snd (handler env0 now0 no_faults (event_of [PStr payload0]) empty_world))) tn k
               = Some item))"
proof -
  obtain body where b: "handler env0 now0 no_faults (event_of [PStr payload0]) empty_world =
     (Inr (PDict [(ascii ''statusCode'', PInt 200), (ascii ''body'', PStr body)]),
      snd (handler env0 now0 no_faults (event_of [PStr payload0]) empty_world))"
    using handler0_first_fst by blast
  show ?thesis using b stored_once[OF b] by blast
qed

text \<open>
  Claim C3. When the payload decodes to a dict whose \<open>transaction\<close> is the int
  \<open>n\<close> and the handler returns, the item it has stored has \<open>customEnrichment = n + 500\<close>,
  and the body it returns is the JSON text of that item. The value depends on
  \<open>transaction\<close> alone: every dict with the same \<open>transaction\<close>, whatever its other
  fields and whatever the time, gives an item with the same \<open>customEnrichment\<close>.
\<close>

theorem enrichment_is_transaction_plus_500:
  assumes "decode_event event = Inr (PDict kvs)"
    and "map_of kvs (ascii ''transaction'') = Some (PInt n)"
    and "handler environ now faults event w = (Inr resp, w')"
  shows "\<exists>tn k item body.
           tables w' tn k = Some item \<and>
           map_of item (ascii ''customEnrichment'') = Some (PInt (n + 500)) \<and>
           json_dumps (PDict item) = Some body \<and>
           resp = PDict [(ascii ''statusCode'', PInt 200), (ascii ''body'', PStr body)] \<and>
           (\<forall>kvs' now' item'.
              map_of kvs' (ascii ''transaction'') = Some (PInt n) \<longrightarrow>
              build_item (PDict kvs') now' = Inr item' \<longrightarrow>
              map_of item' (ascii ''customEnrichment'') = Some (PInt (n + 500)))"
proof -
  have ce: "map_of item' (ascii ''customEnrichment'') = Some (PInt (n + 500))"
    if "map_of kvs' (ascii ''transaction'') = Some (PInt n)"
      "build_item (PDict kvs') now' = Inr item'" for kvs' now' item'
  proof -
    from that(2) obtain kvs2 tid nm ct tr bk cr ce where
      f: "PDict kvs' = PDict kvs2" "map_of kvs2 (ascii ''transaction'') = Some tr"
        "add_int tr 500 = Inr ce"
        "item' = [(ascii ''transactionId'', tid), (ascii ''name'', nm), (ascii ''city'', ct),
         (ascii ''transaction'', tr), (ascii ''bankId'', bk), (ascii ''createdAt'', cr),
         (ascii ''customEnrichment'', ce), (ascii ''inspectedAt'', PStr (str_datetime now'))]"
      by (rule build_item_fields)
    from f(1,2) that(1) have "tr = PInt n" by simp
    with f(3) have "ce = PInt (n + 500)" by (simp add: add_int_def)
    moreover have "map_of item' (ascii ''customEnrichment'') = Some ce"
      unfolding f(4) by (rule item_lookups(2))
    ultimately show ?thesis by simp
  qed
  from assms(3) obtain data tn item w0 arn body where
    h: "decode_event event = Inr data" "environ (ascii ''TABLE_NAME'') = Some tn"
       "build_item data now = Inr item" "put_item (ddb_fault faults) tn item w = (Inr (), w0)"
       "json_dumps (PDict item) = Some body"
       "publish (sns_fault faults) arn body w0 = (Inr (), w')"
       "resp = PDict [(ascii ''statusCode'', PInt 200), (ascii ''body'', PStr body)]"
    by (rule handler_result_cases)
  from h(1) assms(1) have data: "data = PDict kvs" by simp
  from h(4) obtain k where k:
    "w0 = w\<lparr>calls := calls w @ [PutItem tn item],
            tables := (tables w)(tn := (tables w tn)(k \<mapsto> item))\<rparr>"
    by (rule put_item_ok)
  have "tables w' = tables w0" using publish_ok[OF h(6)] by simp
  then have row: "tables w' tn k = Some item" using k by simp
  have "map_of item (ascii ''customEnrichment'') = Some (PInt (n + 500))"
    using assms(2) h(3) unfolding data by (rule ce)
  with row h(5,7) ce show ?thesis by blast
qed

text \<open>
  Claim C3, witness: the scenario payload, with \<open>transaction = 1000\<close>.
\<close>

theorem enrichment_is_transaction_plus_500_witness:
  "decode_event (event_of [PStr payload0]) = Inr (PDict (record_dict D0)) \<and>
   map_of (record_dict D0) (ascii ''transaction'') = Some (PInt 1000) \<and>
   (\<exists>body. handler env0 now0 no_faults (event_of [PStr payload0]) empty_world =
     (Inr (PDict [(ascii ''statusCode'', PInt 200), (ascii ''body'', PStr body)]),
      snd (handler env0 now0 no_faults (event_of [PStr payload0]) empty_world))) \<and>
   (\<exists>tn k item.
      tables (snd (handler env0 now0 no_faults (event_of [PStr payload0]) empty_world)) tn k
        = Some item \<and>
      map_of item (ascii ''customEnrichment'') = Some (PInt (1000 + 500)))"
proof -
  have t: "map_of (record_dict D0) (ascii ''transaction'') = Some (PInt 1000)"
    by (simp add: record_dict_def D0_def ascii_def)
  obtain body where b: "handler env0 now0 no_faults (event_of [PStr payload0]) empty_world =
     (Inr (PDict [(ascii ''statusCode'', PInt 200), (ascii ''body'', PStr body)]),
      snd (handler env0 now0 no_faults (event_of [PStr payload0]) empty_world))"
    using handler0_first_fst by blast
  show ?thesis
    using decode_event0 t b enrichment_is_transaction_plus_500[OF decode_event0 t b] by blast
qed




text \<open>
  Claim C5. When the payload decodes to a DomainRecord with one of the six required
  fields removed, the handler raises KeyError and the world is as before: no request
  has gone to the store or to the topic. With \<open>TABLE_NAME\<close> set, the KeyError names
  the missing field (without it, the KeyError is that of the environment lookup in
  line 21, which comes first).
\<close>

theorem missing_field_raises:
  assumes "f \<in> set required_fields"
    and "decode_event event = Inr (PDict (del_key f (record_dict D)))"
  shows "\<exists>k. handler environ now faults event w = (Inl (KeyError (PStr k)), w) \<and>
              (environ (ascii ''TABLE_NAME'') \<noteq> None \<longrightarrow> k = f)"
proof (cases "environ (ascii ''TABLE_NAME'')")
  case None
  then show ?thesis using assms(2) by (simp add: handler_def os_environ_def)
next
  case (Some tn)
  then show ?thesis
    using assms(2) build_item_missing[OF assms(1), of D now]
    by (simp add: handler_def os_environ_def)
qed

text \<open>
  Claim C5, witness: the scenario payload without \<open>bankId\<close>.
\<close>

theorem missing_field_raises_witness:
  "ascii ''bankId'' \<in> set required_fields \<and>
   decode_event (event_of [PStr payload_no_bank]) =
     Inr (PDict (del_key (ascii ''bankId'') (record_dict D0))) \<and>
   handler env0 now0 no_faults (event_of [PStr payload_no_bank]) empty_world =
     (Inl (KeyError (PStr (ascii ''bankId''))), empty_world)"
proof -
  have r: "ascii ''bankId'' \<in> set required_fields"
    by (simp add: required_fields_def)
  have t: "env0 (ascii ''TABLE_NAME'') \<noteq> None"
    by (simp add: env0_def ascii_def)
  show ?thesis
    using r decode_event_no_bank t
      missing_field_raises[OF r decode_event_no_bank, of env0 now0 no_faults empty_world]
    by auto
qed

text \<open>
  Claim C6. The payload of the scenario is the base64 form of the UTF-8 bytes of its
  JSON text. With the two environment variables set, both services working and no row
  for \<open>t1\<close> in the table, the handler returns \<open>{"statusCode": 200, "body": body}\<close>
  where \<open>body\<close> is the JSON text of the item it has stored under \<open>t1\<close>; the item has
  \<open>customEnrichment = 1500\<close> and an \<open>inspectedAt\<close> that is not empty, and \<open>body\<close> is
  what the topic has received.
\<close>

theorem scenario_first_invocation:
  assumes "environ (ascii ''TABLE_NAME'') = Some tn"
    and "environ (ascii ''TOPIC_ARN'') = Some arn"
    and "tables w tn (PStr (ascii ''t1'')) = None"
  shows "utf8_encode text0 = Inr text0 \<and> b64encode text0 = payload0 \<and>
         (\<exists>body w'.
            handler environ now no_faults (event_of [PStr payload0]) w =
              (Inr (PDict [(ascii ''statusCode'', PInt 200), (ascii ''body'', PStr body)]), w') \<and>
            json_dumps (PDict (enriched D0 now)) = Some body \<and>
            tables w' tn (PStr (ascii ''t1'')) = Some (enriched D0 now) \<and>
            map_of (enriched D0 now) (ascii ''customEnrichment'') = Some (PInt 1500) \<and>
            map_of (enriched D0 now) (ascii ''inspectedAt'') = Some (PStr (str_datetime now)) \<and>
            str_datetime now \<noteq> [] \<and>
            published w' = published w @ [(arn, body)])"
proof -
  have t1: "transactionId D0 = ascii ''t1''" and tr: "transaction D0 = 1000"
    by (simp_all add: D0_def)
  have n: "case tables w tn (PStr (transactionId D0)) of None \<Rightarrow> True
            | Some row \<Rightarrow> map_of row (ascii ''inspectedAt'') = None"
    using assms(3) by (simp add: t1)
  have f: "ddb_fault no_faults = None" "sns_fault no_faults = None"
    by (simp_all add: no_faults_def)
  obtain body where b: "json_dumps (PDict (enriched D0 now)) = Some body"
    "handler environ now no_faults (event_of [PStr payload0]) w =
             (Inr (PDict [(ascii ''statusCode'', PInt 200), (ascii ''body'', PStr body)]),
              w\<lparr>calls := calls w @ [PutItem tn (enriched D0 now), Publish arn body],
                tables := (tables w)(tn := (tables w tn)(PStr (transactionId D0) \<mapsto> enriched D0 now)),
                published := published w @ [(arn, body)]\<rparr>)"
    using handler_success[OF decode_event0 assms(1,2) f n, of now] by blast
  have c: "map_of (enriched D0 now) (ascii ''customEnrichment'') = Some (PInt 1500)"
    by (simp add: enriched_lookups tr)
  show ?thesis
    using b c text0_encodes payload0_encodes str_datetime_nonempty[of now]
    by (simp add: t1 enriched_lookups)
qed

text \<open>
  Claim C6, witness: an empty store and a concrete clock.
\<close>

theorem scenario_first_invocation_witness:
  "env0 (ascii ''TABLE_NAME'') = Some (ascii ''table'') \<and>
   env0 (ascii ''TOPIC_ARN'') = Some (ascii ''topic'') \<and>
   tables empty_world (ascii ''table'') (PStr (ascii ''t1'')) = None \<and>
   (\<exists>body w'.
      handler env0 now0 no_faults (event_of [PStr payload0]) empty_world =
        (Inr (PDict [(ascii ''statusCode'', PInt 200), (ascii ''body'', PStr body)]), w') \<and>
      json_dumps (PDict (enriched D0 now0)) = Some body \<and>
      tables w' (ascii ''table'') (PStr (ascii ''t1'')) = Some (enriched D0 now0) \<and>
      str_datetime now0 \<noteq> [] \<and>
      published w' = published empty_world @ [(ascii ''topic'', body)])"
proof -
  have a: "env0 (ascii ''TABLE_NAME'') = Some (ascii ''table'')"
    and b: "env0 (ascii ''TOPIC_ARN'') = Some (ascii ''topic'')"
    by (simp_all add: env0_def ascii_def)
  have c: "tables empty_world (ascii ''table'') (PStr (ascii ''t1'')) = None"
    by (simp add: empty_world_def)
  show ?thesis
    using a b c scenario_first_invocation[OF a b c, of now0] by blast
qed

text \<open>
  Claim C7. The requests of one invocation extend the requests made before it, and
  when a publish is among them, they are exactly the \<open>put_item\<close> of this invocation
  followed by that publish, and the \<open>put_item\<close> has succeeded. So when \<open>put_item\<close>
  raises, for whatever reason, the topic is not called.
\<close>

theorem publish_only_after_put:
  assumes "handler environ now faults event w = (r, w')"
  shows "\<exists>new. calls w' = calls w @ new \<and>
           (list_ex is_publish new \<longrightarrow>
              (\<exists>tn item w1 arn msg.
                 put_item (ddb_fault faults) tn item w = (Inr (), w1) \<and>
                 new = [PutItem tn item, Publish arn msg]))"
proof (cases rule: handler_cases[of environ now faults event w])
  case (early e)
  with assms have "calls w' = calls w @ []" by simp
  then show ?thesis by (intro exI[of _ "[]"]) simp
next
  case (put_failed data tn item e w1)
  with assms have "w' = w1" by simp
  with put_item_calls[OF put_failed(4)]
  have "calls w' = calls w @ [] \<or> calls w' = calls w @ [PutItem tn item]" by simp
  then show ?thesis by (auto simp: is_publish_def intro: exI[of _ "[]"] exI[of _ "[PutItem tn item]"])
next
  case (no_publish data tn item e w1)
  with assms have "w' = w1" by simp
  moreover have "calls w1 = calls w @ [PutItem tn item]"
    using no_publish(4) by (rule put_item_ok) simp
  ultimately show ?thesis
    by (auto simp: is_publish_def intro: exI[of _ "[PutItem tn item]"])
next
  case (publish_failed data tn item w1 arn body e w2)
  with assms have "w' = w2" by simp
  moreover have "calls w1 = calls w @ [PutItem tn item]"
    using publish_failed(4) by (rule put_item_ok) simp
  moreover note publish_calls[OF publish_failed(7)] publish_failed(4)
  ultimately show ?thesis
    by (auto intro!: exI[of _ "[PutItem tn item, Publish arn body]"])
next
  case (completed data tn item w1 arn body w2)
  with assms have "w' = w2" by simp
  moreover have "calls w1 = calls w @ [PutItem tn item]"
    using completed(4) by (rule put_item_ok) simp
  moreover note publish_calls[OF completed(7)] completed(4)
  ultimately show ?thesis
    by (auto intro!: exI[of _ "[PutItem tn item, Publish arn body]"])
qed

text \<open>
  Claim C7, witness: the second delivery of the scenario payload, where \<open>put_item\<close>
  raises.
\<close>

theorem publish_only_after_put_witness:
  "handler env0 now1 no_faults (event_of [PStr payload0])
      (snd (handler env0 now0 no_faults (event_of [PStr payload0]) empty_world)) =
     (fst (handler env0 now1 no_faults (event_of [PStr payload0])
            (snd (handler env0 now0 no_faults (event_of [PStr payload0]) empty_world))),
      snd (handler env0 now1 no_faults (event_of [PStr payload0])
            (snd (handler env0 now0 no_faults (event_of [PStr payload0]) empty_world)))) \<and>
   (\<exists>new. calls (snd (handler env0 now1 no_faults (event_of [PStr payload0])
                  (snd (handler env0 now0 no_faults (event_of [PStr payload0]) empty_world))))
            = calls (snd (handler env0 now0 no_faults (event_of [PStr payload0]) empty_world)) @ new \<and>
           (list_ex is_publish new \<longrightarrow>
              (\<exists>tn item w1 arn msg.
                 put_item (ddb_fault no_faults) tn item
                   (snd (handler env0 now0 no_faults (event_of [PStr payload0]) empty_world))
                   = (Inr (), w1) \<and>
                 new = [PutItem tn item, Publish arn msg])))"
  using publish_only_after_put[OF prod.collapse[symmetric],
      of env0 now1 no_faults "event_of [PStr payload0]"
         "snd (handler env0 now0 no_faults (event_of [PStr payload0]) empty_world)"]
  by simp

text \<open>
  Claim C8. The pool has ten entries, made by the ten calls of \<open>fake.swift()\<close>; the
  list \<open>banks\<close> is that pool from the moment it is filled (and empty before); the
  \<open>bankId\<close> of every record emitted is an entry of the pool; and the loop, started in
  any state and run for any number of turns, leaves \<open>banks\<close> as it found it.
\<close>

theorem bank_pool_bounded:
  assumes "producer inp = (r, g)"
  shows "length (fill_banks (swift inp)) = 10 \<and>
         (banks g = [] \<or> banks g = fill_banks (swift inp)) \<and>
         (\<forall>p \<in> set (emitted g).
            \<exists>b \<in> set (fill_banks (swift inp)). map_of p (ascii ''bankId'') = Some (PStr b)) \<and>
         (\<forall>stream ts g0 r' g'. emit_loop stream ts g0 = (r', g') \<longrightarrow> banks g' = banks g0)"
proof -
  have len: "length (fill_banks (swift inp)) = 10" by (simp add: fill_banks_eq)
  have loop: "banks g' = banks g0" if "emit_loop stream ts g0 = (r', g')" for stream ts g0 r' g'
  proof -
    obtain r1 g1 where e: "emit_loop stream ts (g0\<lparr>emitted := []\<rparr>) = (r1, g1)"
      by (cases "emit_loop stream ts (g0\<lparr>emitted := []\<rparr>)")
    have aux: "banks (snd (emit_loop stream ts h)) = banks h" for h
    proof (induction ts arbitrary: h)
      case Nil then show ?case by simp
    next
      case (Cons t ts)
      obtain r2 h2 where e2: "emit_one stream t h = (r2, h2)" by (cases "emit_one stream t h")
      with emit_one_inv[OF e2] Cons.IH[of h2] show ?case by (cases r2) simp_all
    qed
    from aux[of g0] that show ?thesis by simp
  qed
  have rec: "(banks g' = [] \<or> banks g' = fill_banks (swift inp)) \<and>
         (\<forall>p \<in> set (emitted g').
            \<exists>b \<in> set (fill_banks (swift inp)). map_of p (ascii ''bankId'') = Some (PStr b))"
    if "emit_records inp g0 = (r', g')" "banks g0 = []" "emitted g0 = []" for g0 r' g'
  proof (cases "stream_name inp")
    case (Inl e) with that show ?thesis by (auto simp: emit_records_def Let_def)
  next
    case (Inr s)
    with that(1) have "emit_loop s (ticks inp)
        (g0\<lparr>trace := trace g0 @ [Input (ascii ''Please enter the stream name that was outputted from cdk deploy - (StreamingSolutionWithCdkStack.RootStreamName): '')],
            banks := fill_banks (swift inp)\<rparr>) = (r', g')"
      by (simp add: emit_records_def Let_def)
    from emit_loop_inv[OF this] that(3) show ?thesis by simp
  qed
  have "(banks g = [] \<or> banks g = fill_banks (swift inp)) \<and>
         (\<forall>p \<in> set (emitted g).
            \<exists>b \<in> set (fill_banks (swift inp)). map_of p (ascii ''bankId'') = Some (PStr b))"
  proof (cases "start_application inp")
    case None
    with assms have "emit_records inp
        \<lparr>banks = [], trace = [StartApplication (ascii ''abnormality-detector''),
           Print (ascii ''Giving 30 seconds for the kinesis analytics application to boot''),
           Sleep 30], emitted = []\<rparr> = (r, g)"
      by (simp add: producer_def Let_def)
    then show ?thesis by (rule rec) simp_all
  next
    case (Some e)
    show ?thesis
    proof (cases "e = ResourceInUseException")
      case True
      with Some assms have "emit_records inp
          \<lparr>banks = [], trace = [StartApplication (ascii ''abnormality-detector''),
             Print (ascii ''Application already running, skipping start up step'')],
           emitted = []\<rparr> = (r, g)"
        by (simp add: producer_def Let_def)
      then show ?thesis by (rule rec) simp_all
    next
      case False
      with Some assms show ?thesis by (auto simp: producer_def Let_def)
    qed
  qed
  with len loop show ?thesis by blast
qed

text \<open>
  Claim C8, witness: a run of two turns.
\<close>

theorem bank_pool_bounded_witness:
  "producer inputs0 = (fst (producer inputs0), snd (producer inputs0)) \<and>
   length (fill_banks (swift inputs0)) = 10 \<and>
   length (emitted (snd (producer inputs0))) = 2 \<and>
   list_all
     (\<lambda>p. list_ex (\<lambda>b. map_of p (ascii ''bankId'') = Some (PStr b))
            (fill_banks (swift inputs0)))
     (emitted (snd (producer inputs0)))"
proof -
  obtain g1 where g1: "banks g1 \<noteq> []" "emitted g1 = []"
    "producer inputs0 = emit_loop (ascii ''root-stream'') (ticks inputs0) g1"
    by (rule that[of "\<lparr>banks = fill_banks (swift inputs0),
      trace = [StartApplication (ascii ''abnormality-detector''),
         Print (ascii ''Application already running, skipping start up step''),
         Input (ascii ''Please enter the stream name that was outputted from cdk deploy - (StreamingSolutionWithCdkStack.RootStreamName): '')],
      emitted = []\<rparr>"])
       (simp_all add: producer_def emit_records_def inputs0_def fill_banks_eq Let_def)
  have t: "list_all put_ok (ticks inputs0)" "length (ticks inputs0) = 2"
    by (simp_all add: inputs0_def put_ok_def tick0_def)
  have n: "length (emitted (snd (producer inputs0))) = 2"
    using emit_loop_all_ok[OF g1(1) t(1), where stream = "ascii ''root-stream''"] g1(2,3) t(2)
    by simp
  show ?thesis
    using n bank_pool_bounded[OF prod.collapse[symmetric], of inputs0]
    by (simp add: list_all_iff list_ex_iff)
qed

text \<open>
  Claim C9. When the start request raises ResourceInUseException, the script goes on:
  with a stream name entered and every \<open>put_record\<close> answered it runs without error,
  emits one record per turn, and has sent the start request once. When the start
  request raises anything else, the script ends with that exception, having sent the
  start request once and done nothing else: no record, no second attempt.
\<close>

theorem bootstrap_outcomes:
  "(start_application inp = Some ResourceInUseException \<longrightarrow>
      stream_name inp = Inr s \<longrightarrow> list_all put_ok (ticks inp) \<longrightarrow>
      fst (producer inp) = None \<and>
      length (emitted (snd (producer inp))) = length (ticks inp) \<and>
      length (filter is_start (trace (snd (producer inp)))) = 1) \<and>
   (start_application inp = Some e \<longrightarrow> e \<noteq> ResourceInUseException \<longrightarrow>
      producer inp =
        (Some e, \<lparr>banks = [], trace = [StartApplication (ascii ''abnormality-detector'')],
                  emitted = []\<rparr>))"
proof (intro conjI impI)
  assume a: "start_application inp = Some ResourceInUseException"
    and s: "stream_name inp = Inr s" and t: "list_all put_ok (ticks inp)"
  define g1 where "g1 = \<lparr>banks = fill_banks (swift inp),
      trace = [StartApplication (ascii ''abnormality-detector''),
         Print (ascii ''Application already running, skipping start up step''),
         Input (ascii ''Please enter the stream name that was outputted from cdk deploy - (StreamingSolutionWithCdkStack.RootStreamName): '')],
      emitted = []\<rparr>"
  have p: "producer inp = emit_loop s (ticks inp) g1"
    by (simp add: producer_def emit_records_def a s g1_def Let_def)
  have b: "banks g1 \<noteq> []" by (simp add: g1_def fill_banks_eq)
  from emit_loop_all_ok[OF b t, where stream = s]
  show "fst (producer inp) = None"
    and "length (emitted (snd (producer inp))) = length (ticks inp)"
    by (simp_all add: p g1_def)
  have "filter is_start (trace (snd (emit_loop s (ticks inp) g1))) = filter is_start (trace g1)"
    using emit_loop_inv[OF prod.collapse[symmetric], where stream = s and ts = "ticks inp" and g = g1]
    by (simp add: g1_def)
  then show "length (filter is_start (trace (snd (producer inp)))) = 1"
    by (simp add: p g1_def is_start_def)
next
  assume "start_application inp = Some e" "e \<noteq> ResourceInUseException"
  then show "producer inp =
        (Some e, \<lparr>banks = [], trace = [StartApplication (ascii ''abnormality-detector'')],
                  emitted = []\<rparr>)"
    by (simp add: producer_def Let_def)
qed

text \<open>
  Claim C9, witness: a run of two turns with the application already running, and a
  run where the start request is denied.
\<close>

theorem bootstrap_outcomes_witness:
  "start_application inputs0 = Some ResourceInUseException \<and>
   stream_name inputs0 = Inr (ascii ''root-stream'') \<and>
   list_all put_ok (ticks inputs0) \<and>
   fst (producer inputs0) = None \<and>
   length (emitted (snd (producer inputs0))) = 2 \<and>
   length (filter is_start (trace (snd (producer inputs0)))) = 1 \<and>
   start_application inputs1 = Some (ClientError (ascii ''AccessDenied'')) \<and>
   ClientError (ascii ''AccessDenied'') \<noteq> ResourceInUseException \<and>
   producer inputs1 =
     (Some (ClientError (ascii ''AccessDenied'')),
      \<lparr>banks = [], trace = [StartApplication (ascii ''abnormality-detector'')], emitted = []\<rparr>)"
proof -
  have a: "start_application inputs0 = Some ResourceInUseException"
    and s: "stream_name inputs0 = Inr (ascii ''root-stream'')"
    and t: "list_all put_ok (ticks inputs0)"
    and n: "length (ticks inputs0) = 2"
    by (simp_all add: inputs0_def put_ok_def tick0_def)
  have b: "start_application inputs1 = Some (ClientError (ascii ''AccessDenied''))"
    by (simp add: inputs1_def)
  have c: "ClientError (ascii ''AccessDenied'') \<noteq> ResourceInUseException" by simp
  show ?thesis
    using a s t n b c
      bootstrap_outcomes[of inputs0 "ascii ''root-stream''" ResourceInUseException]
      bootstrap_outcomes[of inputs1 "[]" "ClientError (ascii ''AccessDenied'')"]
    by simp
qed

text \<open>
  Claim C10. For every event whose \<open>records\<close> list is \<open>r # rest\<close>, whatever other
  keys the event has: the invocation has the result and leaves the world of the
  invocation on \<open>r\<close> alone; when \<open>r\<close> does not decode, the handler raises that error
  and nothing else happens, whatever \<open>rest\<close> holds; and when \<open>r\<close> decodes to a
  DomainRecord (environment set, both services working, no row for it yet), the item
  of \<open>r\<close> is stored, its JSON text is published and returned with status 200, and
  these two requests are all that is sent: no row, no message and no part of the
  answer comes from \<open>rest\<close>.
\<close>

theorem first_record_only:
  assumes "map_of kvs (ascii ''records'') = Some (PList (r # rest))"
  shows "handler environ now faults (PDict kvs) w =
           handler environ now faults (PDict [(ascii ''records'', PList [r])]) w \<and>
         (\<forall>e. decode_record r = Inl e \<longrightarrow>
              handler environ now faults (PDict kvs) w = (Inl e, w)) \<and>
         (decode_record r = Inr (PDict (record_dict D)) \<longrightarrow>
          environ (ascii ''TABLE_NAME'') = Some tn \<longrightarrow>
          environ (ascii ''TOPIC_ARN'') = Some arn \<longrightarrow>
          ddb_fault faults = None \<longrightarrow> sns_fault faults = None \<longrightarrow>
          tables w tn (PStr (transactionId D)) = None \<longrightarrow>
          (\<exists>body.
             json_dumps (PDict (enriched D now)) = Some body \<and>
             handler environ now faults (PDict kvs) w =
               (Inr (PDict [(ascii ''statusCode'', PInt 200), (ascii ''body'', PStr body)]),
                w\<lparr>calls := calls w @ [PutItem tn (enriched D now), Publish arn body],
                  tables := (tables w)(tn := (tables w tn)(PStr (transactionId D) \<mapsto> enriched D now)),
                  published := published w @ [(arn, body)]\<rparr>)))"
proof (intro conjI allI impI)
  note d = decode_event_first[OF assms]
  have d1: "decode_event (PDict [(ascii ''records'', PList [r])]) = decode_record r"
    by (rule decode_event_first) simp
  show "handler environ now faults (PDict kvs) w =
           handler environ now faults (PDict [(ascii ''records'', PList [r])]) w"
    by (simp add: handler_def d d1)
  show "handler environ now faults (PDict kvs) w = (Inl e, w)"
    if "decode_record r = Inl e" for e
    using that by (simp add: handler_def d)
  assume r: "decode_record r = Inr (PDict (record_dict D))"
    and t: "environ (ascii ''TABLE_NAME'') = Some tn"
    and a: "environ (ascii ''TOPIC_ARN'') = Some arn"
    and f: "ddb_fault faults = None" "sns_fault faults = None"
    and n: "tables w tn (PStr (transactionId D)) = None"
  have d2: "decode_event (PDict kvs) = Inr (PDict (record_dict D))" using d r by simp
  have n2: "case tables w tn (PStr (transactionId D)) of None \<Rightarrow> True
            | Some row \<Rightarrow> map_of row (ascii ''inspectedAt'') = None"
    using n by simp
  show "\<exists>body.
             json_dumps (PDict (enriched D now)) = Some body \<and>
             handler environ now faults (PDict kvs) w =
               (Inr (PDict [(ascii ''statusCode'', PInt 200), (ascii ''body'', PStr body)]),
                w\<lparr>calls := calls w @ [PutItem tn (enriched D now), Publish arn body],
                  tables := (tables w)(tn := (tables w tn)(PStr (transactionId D) \<mapsto> enriched D now)),
                  published := published w @ [(arn, body)]\<rparr>)"
    using d2 t a f n2 by (rule handler_success)
qed

text \<open>
  Claim C10, witness: an event with an invocation id, an application ARN and three
  records, the first of them the scenario payload.
\<close>

theorem first_record_only_witness:
  "map_of batch_event (ascii ''records'') = Some (PList (record0 # later_records)) \<and>
   decode_record record0 = Inr (PDict (record_dict D0)) \<and>
   env0 (ascii ''TABLE_NAME'') = Some (ascii ''table'') \<and>
   env0 (ascii ''TOPIC_ARN'') = Some (ascii ''topic'') \<and>
   ddb_fault no_faults = None \<and> sns_fault no_faults = None \<and>
   tables empty_world (ascii ''table'') (PStr (transactionId D0)) = None \<and>
   (\<exists>body.
      json_dumps (PDict (enriched D0 now0)) = Some body \<and>
      handler env0 now0 no_faults (PDict batch_event) empty_world =
        (Inr (PDict [(ascii ''statusCode'', PInt 200), (ascii ''body'', PStr body)]),
         empty_world\<lparr>calls := calls empty_world @
                         [PutItem (ascii ''table'') (enriched D0 now0), Publish (ascii ''topic'') body],
           tables := (tables empty_world)(ascii ''table'' :=
              (tables empty_world (ascii ''table''))(PStr (transactionId D0) \<mapsto> enriched D0 now0)),
           published := published empty_world @ [(ascii ''topic'', body)]\<rparr>))"
proof -
  have m: "map_of batch_event (ascii ''records'') = Some (PList (record0 # later_records))"
    by (simp add: batch_event_def ascii_def)
  have t: "env0 (ascii ''TABLE_NAME'') = Some (ascii ''table'')"
    and a: "env0 (ascii ''TOPIC_ARN'') = Some (ascii ''topic'')"
    by (simp_all add: env0_def ascii_def)
  have f: "ddb_fault no_faults = None" "sns_fault no_faults = None"
    by (simp_all add: no_faults_def)
  have n: "tables empty_world (ascii ''table'') (PStr (transactionId D0)) = None"
    by (simp add: empty_world_def)
  show ?thesis
    using m decode_record0 t a f n
      first_record_only[OF m, of env0 now0 no_faults empty_world D0 "ascii ''table''" "ascii ''topic''"]
    by blast
qed

end
